theory Spec2Isabelle
  imports Complex_Main
begin

section \<open>Data model\<close>

text \<open>
  The models of \<^verbatim>\<open>epimodel/pymc3_models/cm_effect/models.py\<close> are built from a dataset
  object \<^verbatim>\<open>data\<close> (kept as \<^verbatim>\<open>self.d\<close>, the very same object, not a copy). Its arrays
  are modelled as nested lists: \<^verbatim>\<open>a[r, d]\<close> is \<open>a ! r ! d\<close>. A floating-point cell is
  either NaN or a number; numbers are taken as reals. A masked array is a pair of a data
  array and a boolean mask array (\<^verbatim>\<open>True\<close> means excluded).
\<close>

datatype py_error = IndexError | ValueError | AttributeError

datatype fval = NaN | Val real

fun isnan :: "fval \<Rightarrow> bool" where
  "isnan NaN = True"
| "isnan (Val x) = False"

record dataset =
  Rs :: "string list"
  Ds :: "nat list"
  CMs :: "string list"
  ActiveCMs :: "real list list list"
  NewCases_mask :: "bool list list"
  NewCases_data :: "fval list list"
  NewDeaths_mask :: "bool list list"
  NewDeaths_data :: "fval list list"
  Confirmed_data :: "fval list list"
  Deaths_data :: "fval list list"

text \<open>Reading and writing one cell of a two-dimensional array; an index outside the
  array raises \<^verbatim>\<open>IndexError\<close>.\<close>

definition get2 :: "'a list list \<Rightarrow> nat \<Rightarrow> nat \<Rightarrow> py_error + 'a" where
  "get2 a r d = (if r < length a \<and> d < length (a ! r) then Inr (a ! r ! d) else Inl IndexError)"

definition set2 :: "'a list list \<Rightarrow> nat \<Rightarrow> nat \<Rightarrow> 'a \<Rightarrow> 'a list list" where
  "set2 a r d v = a[r := (a ! r)[d := v]]"

text \<open>A \<^verbatim>\<open>for\<close> loop over a list of indices, threading the state and stopping at the
  first exception.\<close>

primrec for_each :: "('a \<Rightarrow> 's \<Rightarrow> py_error + 's) \<Rightarrow> 'a list \<Rightarrow> 's \<Rightarrow> py_error + 's" where
  "for_each f [] s = Inr s"
| "for_each f (x # xs) s = (case f x s of Inl e \<Rightarrow> Inl e | Inr s' \<Rightarrow> for_each f xs s')"

text \<open>The properties \<^verbatim>\<open>nRs\<close> and \<^verbatim>\<open>nDs\<close> of \<^verbatim>\<open>BaseCMModel\<close>.\<close>

definition nRs :: "dataset \<Rightarrow> nat" where
  "nRs data = length (Rs data)"

definition nDs :: "dataset \<Rightarrow> nat" where
  "nDs data = length (Ds data)"


section \<open>The missing-data mask of \<^verbatim>\<open>CMCombined_Final.__init__\<close>\<close>

text \<open>
  The body of the cases loop (lines 934--941), for one cell. The state is the list
  \<^verbatim>\<open>observed_active\<close> and the array \<^verbatim>\<open>self.d.NewCases.mask\<close>, which the loop writes.
  Python's \<^verbatim>\<open>and\<close> evaluates left to right and stops early, so \<^verbatim>\<open>Confirmed.data[r, d]\<close>
  is read only when the first two conjuncts hold.
\<close>

definition observed_active_cell ::
  "nat \<Rightarrow> nat \<Rightarrow> fval list list \<Rightarrow> nat \<Rightarrow> nat \<Rightarrow> nat list \<times> bool list list
     \<Rightarrow> py_error + (nat list \<times> bool list list)" where
  "observed_active_cell n_days delay_cut confirmed r d st =
     (case st of (observed_active, msk) \<Rightarrow>
        (case get2 msk r d of
           Inl e \<Rightarrow> Inl e
         | Inr m \<Rightarrow>
             if m = False \<and> d > delay_cut then
               (case get2 confirmed r d of
                  Inl e \<Rightarrow> Inl e
                | Inr c \<Rightarrow>
                    if \<not> isnan c \<and> int d < int n_days - 7
                    then Inr (observed_active @ [r * n_days + d], msk)
                    else Inr (observed_active, set2 msk r d True))
             else Inr (observed_active, set2 msk r d True)))"

text \<open>The body of the deaths loop (lines 946--953): the same without the trailing week.\<close>

definition observed_deaths_cell ::
  "nat \<Rightarrow> nat \<Rightarrow> fval list list \<Rightarrow> nat \<Rightarrow> nat \<Rightarrow> nat list \<times> bool list list
     \<Rightarrow> py_error + (nat list \<times> bool list list)" where
  "observed_deaths_cell n_days delay_cut deaths r d st =
     (case st of (observed_deaths, msk) \<Rightarrow>
        (case get2 msk r d of
           Inl e \<Rightarrow> Inl e
         | Inr m \<Rightarrow>
             if m = False \<and> d > delay_cut then
               (case get2 deaths r d of
                  Inl e \<Rightarrow> Inl e
                | Inr c \<Rightarrow>
                    if \<not> isnan c
                    then Inr (observed_deaths @ [r * n_days + d], msk)
                    else Inr (observed_deaths, set2 msk r d True))
             else Inr (observed_deaths, set2 msk r d True)))"

text \<open>The two nested \<^verbatim>\<open>for r in range(self.nRs): for d in range(self.nDs)\<close> loops.\<close>

definition region_day_loop ::
  "(nat \<Rightarrow> nat \<Rightarrow> 's \<Rightarrow> py_error + 's) \<Rightarrow> nat \<Rightarrow> nat \<Rightarrow> 's \<Rightarrow> py_error + 's" where
  "region_day_loop body n_regions n_days s =
     for_each (\<lambda>r. for_each (\<lambda>d. body r d) [0..<n_days]) [0..<n_regions] s"

text \<open>
  The attributes of a model instance that the claims are about. \<open>self_d\<close> (\<^verbatim>\<open>self.d\<close>) is the dataset object
  the instance holds; it is the caller's object, so its value after construction is what
  the caller sees too.
\<close>

record cm_model =
  self_d :: dataset
  CMDelayCut :: nat
  ObservedDaysIndx :: "nat list"
  nORs :: nat
  nODs :: nat
  all_observed_active :: "nat list"
  all_observed_deaths :: "nat list"

definition CMCombined_Final_init :: "dataset \<Rightarrow> py_error + cm_model" where
  "CMCombined_Final_init data =
     (let delay_cut = 30;
          days = [delay_cut..<length (Ds data)]
      in case region_day_loop (observed_active_cell (nDs data) delay_cut (Confirmed_data data))
                (nRs data) (nDs data) ([], NewCases_mask data) of
           Inl e \<Rightarrow> Inl e
         | Inr (observed_active, cases_mask) \<Rightarrow>
             (case region_day_loop (observed_deaths_cell (nDs data) delay_cut (Deaths_data data))
                     (nRs data) (nDs data) ([], NewDeaths_mask data) of
                Inl e \<Rightarrow> Inl e
              | Inr (observed_deaths, deaths_mask) \<Rightarrow>
                  Inr \<lparr> self_d = data\<lparr>NewCases_mask := cases_mask, NewDeaths_mask := deaths_mask\<rparr>,
                        CMDelayCut = delay_cut,
                        ObservedDaysIndx = days,
                        nORs = nRs data,
                        nODs = length days,
                        all_observed_active = observed_active,
                        all_observed_deaths = observed_deaths \<rparr>))"

text \<open>The arrays of a dataset are rectangular and aligned: one row per region, one column
  per day.\<close>

definition shape2 :: "'a list list \<Rightarrow> nat \<Rightarrow> nat \<Rightarrow> bool" where
  "shape2 a n m = (length a = n \<and> list_all (\<lambda>row. length row = m) a)"

definition aligned :: "dataset \<Rightarrow> bool" where
  "aligned data =
     (shape2 (NewCases_mask data) (nRs data) (nDs data) \<and>
      shape2 (NewCases_data data) (nRs data) (nDs data) \<and>
      shape2 (NewDeaths_mask data) (nRs data) (nDs data) \<and>
      shape2 (NewDeaths_data data) (nRs data) (nDs data) \<and>
      shape2 (Confirmed_data data) (nRs data) (nDs data) \<and>
      shape2 (Deaths_data data) (nRs data) (nDs data))"

text \<open>The inclusion test of a cell, read off the input arrays.\<close>

definition cases_included :: "dataset \<Rightarrow> nat \<Rightarrow> nat \<Rightarrow> bool" where
  "cases_included data r d =
     (NewCases_mask data ! r ! d = False \<and> d > 30 \<and> \<not> isnan (Confirmed_data data ! r ! d)
      \<and> int d < int (nDs data) - 7)"

definition deaths_included :: "dataset \<Rightarrow> nat \<Rightarrow> nat \<Rightarrow> bool" where
  "deaths_included data r d =
     (NewDeaths_mask data ! r ! d = False \<and> d > 30 \<and> \<not> isnan (Deaths_data data ! r ! d))"

text \<open>The inclusion test of the ICL variant for the observed day \<open>d\<close>, which is day
  \<open>30 + d\<close> of the arrays.\<close>

definition ICL_cases_included :: "dataset \<Rightarrow> nat \<Rightarrow> nat \<Rightarrow> bool" where
  "ICL_cases_included data r d =
     (NewCases_mask data ! r ! (30 + d) = False \<and> \<not> isnan (Confirmed_data data ! r ! (30 + d)))"

definition ICL_deaths_included :: "dataset \<Rightarrow> nat \<Rightarrow> nat \<Rightarrow> bool" where
  "ICL_deaths_included data r d =
     (NewDeaths_mask data ! r ! (30 + d) = False \<and> \<not> isnan (Deaths_data data ! r ! (30 + d)))"

text \<open>A loop body of the shape all these loops have once the reads are known to be in
  range: test the mask at day \<open>off + d\<close>, then either append the flat index of \<open>(r, d)\<close> or
  set the mask there. \<open>ok r d\<close> stands for the conjuncts after the mask test; \<open>off\<close> is 0
  except in the ICL variant, which counts its days from \<^verbatim>\<open>CMDelayCut\<close>.\<close>

definition cell_step ::
  "nat \<Rightarrow> nat \<Rightarrow> (nat \<Rightarrow> nat \<Rightarrow> bool) \<Rightarrow> nat \<Rightarrow> nat \<Rightarrow> nat list \<times> bool list list
     \<Rightarrow> py_error + (nat list \<times> bool list list)" where
  "cell_step n_days off ok r d st =
     (case st of (obs, msk) \<Rightarrow>
        if msk ! r ! (off + d) = False \<and> ok r d then Inr (obs @ [r * n_days + d], msk)
        else Inr (obs, set2 msk r (off + d) True))"

section \<open>The mask of \<^verbatim>\<open>CMCombined_Final_ICL.__init__\<close>\<close>

text \<open>
  Lines 5199--5217. This variant walks the observed days only (\<^verbatim>\<open>range(self.nODs)\<close>),
  reads the arrays at \<^verbatim>\<open>actual_day = self.ObservedDaysIndx[d]\<close> and flattens with
  \<^verbatim>\<open>r * self.nODs + d\<close>; both channels are handled in the same loop body.
\<close>

definition ICL_channel ::
  "nat \<Rightarrow> fval list list \<Rightarrow> nat \<Rightarrow> nat \<Rightarrow> nat \<Rightarrow> nat list \<times> bool list list
     \<Rightarrow> py_error + (nat list \<times> bool list list)" where
  "ICL_channel n_obs_days cumulative r d actual_day st =
     (case st of (observed, msk) \<Rightarrow>
        (case get2 msk r actual_day of
           Inl e \<Rightarrow> Inl e
         | Inr m \<Rightarrow>
             if m = False then
               (case get2 cumulative r actual_day of
                  Inl e \<Rightarrow> Inl e
                | Inr c \<Rightarrow>
                    if \<not> isnan c
                    then Inr (observed @ [r * n_obs_days + d], msk)
                    else Inr (observed, set2 msk r actual_day True))
             else Inr (observed, set2 msk r actual_day True)))"

definition ICL_cell ::
  "nat list \<Rightarrow> fval list list \<Rightarrow> fval list list \<Rightarrow> nat \<Rightarrow> nat
     \<Rightarrow> (nat list \<times> bool list list) \<times> (nat list \<times> bool list list)
     \<Rightarrow> py_error + ((nat list \<times> bool list list) \<times> (nat list \<times> bool list list))" where
  "ICL_cell days confirmed deaths r d st =
     (case st of (cases_st, deaths_st) \<Rightarrow>
        if d < length days then
          (let actual_day = days ! d in
           case ICL_channel (length days) confirmed r d actual_day cases_st of
             Inl e \<Rightarrow> Inl e
           | Inr cases_st' \<Rightarrow>
               (case ICL_channel (length days) deaths r d actual_day deaths_st of
                  Inl e \<Rightarrow> Inl e
                | Inr deaths_st' \<Rightarrow> Inr (cases_st', deaths_st')))
        else Inl IndexError)"

definition CMCombined_Final_ICL_init :: "dataset \<Rightarrow> py_error + cm_model" where
  "CMCombined_Final_ICL_init data =
     (let delay_cut = 30;
          days = [delay_cut..<length (Ds data)]
      in case region_day_loop (ICL_cell days (Confirmed_data data) (Deaths_data data))
                (nRs data) (length days)
                (([], NewCases_mask data), ([], NewDeaths_mask data)) of
           Inl e \<Rightarrow> Inl e
         | Inr ((observed_active, cases_mask), (observed_deaths, deaths_mask)) \<Rightarrow>
             Inr \<lparr> self_d = data\<lparr>NewCases_mask := cases_mask, NewDeaths_mask := deaths_mask\<rparr>,
                   CMDelayCut = delay_cut,
                   ObservedDaysIndx = days,
                   nORs = nRs data,
                   nODs = length days,
                   all_observed_active = observed_active,
                   all_observed_deaths = observed_deaths \<rparr>)"

section \<open>\<^verbatim>\<open>CMActive_Final.__init__\<close> and \<^verbatim>\<open>CMDeath_Final.__init__\<close>\<close>

text \<open>
  \<^verbatim>\<open>CMActive_Final\<close>, lines 612--623. The loop is the cases loop of
  \<^verbatim>\<open>CMCombined_Final\<close> with one more statement in the else branch,
  \<^verbatim>\<open>skipped_days.append(d)\<close>, on a list that is local to the region and never read; the
  list is left out. The constructor has no deaths loop. The result is the attribute
  \<^verbatim>\<open>observed_days\<close> together with the dataset object after construction.
\<close>

definition CMActive_Final_init :: "dataset \<Rightarrow> py_error + (nat list \<times> dataset)" where
  "CMActive_Final_init data =
     (let delay_cut = 30
      in case region_day_loop (observed_active_cell (nDs data) delay_cut (Confirmed_data data))
                (nRs data) (nDs data) ([], NewCases_mask data) of
           Inl e \<Rightarrow> Inl e
         | Inr (observed, cases_mask) \<Rightarrow> Inr (observed, data\<lparr>NewCases_mask := cases_mask\<rparr>))"

text \<open>
  \<^verbatim>\<open>CMDeath_Final\<close>, lines 302--316. The test is the one of the deaths loop, but the
  else branch only appends to the local \<^verbatim>\<open>skipped_days\<close>: the mask is read and never
  written, so the state of the loop is the list \<^verbatim>\<open>observed\<close> alone.
\<close>

definition CMDeath_Final_cell ::
  "nat \<Rightarrow> nat \<Rightarrow> bool list list \<Rightarrow> fval list list \<Rightarrow> nat \<Rightarrow> nat \<Rightarrow> nat list
     \<Rightarrow> py_error + nat list" where
  "CMDeath_Final_cell n_days delay_cut msk deaths r d observed =
     (case get2 msk r d of
        Inl e \<Rightarrow> Inl e
      | Inr m \<Rightarrow>
          if m = False \<and> d > delay_cut then
            (case get2 deaths r d of
               Inl e \<Rightarrow> Inl e
             | Inr c \<Rightarrow>
                 if \<not> isnan c then Inr (observed @ [r * n_days + d]) else Inr observed)
          else Inr observed)"

definition CMDeath_Final_init :: "dataset \<Rightarrow> py_error + (nat list \<times> dataset)" where
  "CMDeath_Final_init data =
     (let delay_cut = 30
      in case region_day_loop
                (CMDeath_Final_cell (nDs data) delay_cut (NewDeaths_mask data) (Deaths_data data))
                (nRs data) (nDs data) [] of
           Inl e \<Rightarrow> Inl e
         | Inr observed \<Rightarrow> Inr (observed, data))"

section \<open>\<^verbatim>\<open>CMCombined_Final_DifDelays.__init__\<close>\<close>

text \<open>\<^verbatim>\<open>list.index\<close>: the first position of a value, or \<^verbatim>\<open>ValueError\<close>.\<close>

fun list_index :: "'a list \<Rightarrow> 'a \<Rightarrow> py_error + nat" where
  "list_index [] x = Inl ValueError"
| "list_index (y # ys) x =
     (if y = x then Inr 0
      else case list_index ys x of Inl e \<Rightarrow> Inl e | Inr i \<Rightarrow> Inr (Suc i))"

text \<open>
  Lines 1650--1653. \<^verbatim>\<open>np.sum(data.ActiveCMs[:, testing_indx, :], axis=-1)\<close> is the
  activity of the NPI summed over the days, one number per region;
  \<^verbatim>\<open>np.nonzero(... > 1)[0]\<close> lists, in increasing order, the regions where the
  comparison holds. The last line overwrites the NPI's rows of the caller's tensor with 0.
\<close>

definition testing_sums :: "real list list list \<Rightarrow> nat \<Rightarrow> real list" where
  "testing_sums active testing_indx = map (\<lambda>region. sum_list (region ! testing_indx)) active"

definition short_regions :: "real list list list \<Rightarrow> nat \<Rightarrow> nat list" where
  "short_regions active testing_indx =
     filter (\<lambda>r. testing_sums active testing_indx ! r > 1) [0..<length active]"

definition long_regions :: "real list list list \<Rightarrow> nat \<Rightarrow> nat list" where
  "long_regions active testing_indx =
     filter (\<lambda>r. testing_sums active testing_indx ! r < 1) [0..<length active]"

definition zero_npi :: "real list list list \<Rightarrow> nat \<Rightarrow> real list list list" where
  "zero_npi active testing_indx =
     map (\<lambda>region. region[testing_indx := map (\<lambda>x. 0) (region ! testing_indx)]) active"

record difdelays_model = cm_model +
  short_rs :: "nat list"
  long_rs :: "nat list"

definition CMCombined_Final_DifDelays_init :: "dataset \<Rightarrow> py_error + difdelays_model" where
  "CMCombined_Final_DifDelays_init data =
     (let delay_cut = 30;
          days = [delay_cut..<length (Ds data)]
      in case list_index (CMs data) ''Symptomatic Testing'' of
           Inl e \<Rightarrow> Inl e
         | Inr testing_indx \<Rightarrow>
             if \<not> list_all (\<lambda>region. testing_indx < length region) (ActiveCMs data)
             then Inl IndexError
             else
               (let shorts = short_regions (ActiveCMs data) testing_indx;
                    longs = long_regions (ActiveCMs data) testing_indx;
                    data1 = data\<lparr>ActiveCMs := zero_npi (ActiveCMs data) testing_indx\<rparr>
                in case region_day_loop
                          (observed_active_cell (nDs data1) delay_cut (Confirmed_data data1))
                          (nRs data1) (nDs data1) ([], NewCases_mask data1) of
                     Inl e \<Rightarrow> Inl e
                   | Inr (observed_active, cases_mask) \<Rightarrow>
                       (case region_day_loop
                               (observed_deaths_cell (nDs data1) delay_cut (Deaths_data data1))
                               (nRs data1) (nDs data1) ([], NewDeaths_mask data1) of
                          Inl e \<Rightarrow> Inl e
                        | Inr (observed_deaths, deaths_mask) \<Rightarrow>
                            Inr \<lparr> self_d = data1\<lparr>NewCases_mask := cases_mask,
                                                   NewDeaths_mask := deaths_mask\<rparr>,
                                  CMDelayCut = delay_cut,
                                  ObservedDaysIndx = days,
                                  nORs = nRs data,
                                  nODs = length days,
                                  all_observed_active = observed_active,
                                  all_observed_deaths = observed_deaths,
                                  short_rs = shorts,
                                  long_rs = longs \<rparr>)))"

section \<open>\<^verbatim>\<open>build_model\<close>: the effect coefficients\<close>

text \<open>
  A build declares named variables; a draw gives each free variable a value and the
  deterministic ones follow. The head of \<^verbatim>\<open>CMCombined_Final.build_model\<close> (lines
  962--972) declares \<^verbatim>\<open>CM_Alpha\<close> according to \<^verbatim>\<open>cm_prior\<close> and then
  \<^verbatim>\<open>CMReduction = T.exp((-1.0) * self.CM_Alpha)\<close>. With any other \<^verbatim>\<open>cm_prior\<close> the
  attribute \<^verbatim>\<open>self.CM_Alpha\<close> was never assigned and reading it raises. \<open>free\<close> is the
  drawn value of the free variable (\<^verbatim>\<open>CM_Alpha\<close>, or \<^verbatim>\<open>CM_Alpha_t\<close> under the
  \<^verbatim>\<open>'icl'\<close> prior).
\<close>

definition CMCombined_Final_effects :: "string \<Rightarrow> real list \<Rightarrow> py_error + (string \<times> real list) list" where
  "CMCombined_Final_effects cm_prior free =
     (if cm_prior = ''normal'' \<or> cm_prior = ''half_normal'' then
        Inr [(''CM_Alpha'', free),
             (''CMReduction'', map (\<lambda>a. exp ((- 1) * a)) free)]
      else if cm_prior = ''icl'' then
        (let CM_Alpha = map (\<lambda>t. t - ln (105 / 100) / 6) free
         in Inr [(''CM_Alpha_t'', free),
                 (''CM_Alpha'', CM_Alpha),
                 (''CMReduction'', map (\<lambda>a. exp ((- 1) * a)) CM_Alpha)])
      else Inl AttributeError)"

text \<open>
  The head of \<^verbatim>\<open>CMCombined_Additive.build_model\<close> (lines 3787--3790): the free variable
  is the Dirichlet vector \<^verbatim>\<open>AllBeta\<close> of length \<^verbatim>\<open>nCMs + 1\<close>;
  \<^verbatim>\<open>CM_Beta = AllBeta[1:]\<close>, \<^verbatim>\<open>Beta_hat = AllBeta[0]\<close>, \<^verbatim>\<open>CMReduction = CM_Beta\<close>.
  No \<^verbatim>\<open>CM_Alpha\<close> is declared.
\<close>

definition CMCombined_Additive_effects :: "real list \<Rightarrow> (string \<times> real list) list" where
  "CMCombined_Additive_effects AllBeta =
     [(''AllBeta'', AllBeta),
      (''CM_Beta'', drop 1 AllBeta),
      (''Beta_hat'', take 1 AllBeta),
      (''CMReduction'', drop 1 AllBeta)]"

section \<open>\<^verbatim>\<open>build_model\<close>: growth reduction and the serial-interval transform\<close>


text \<open>
  Lines 998--1005. The two divisions have no real value when the divisor is 0 (the
  floating-point code raises or yields inf/nan there); the model returns \<open>None\<close>.
\<close>

definition si_beta :: "real \<Rightarrow> real \<Rightarrow> real option" where
  "si_beta serial_interval_mean serial_interval_sigma =
     (if serial_interval_sigma ^ 2 = 0 then None
      else Some (serial_interval_mean / serial_interval_sigma ^ 2))"

definition si_alpha :: "real \<Rightarrow> real \<Rightarrow> real option" where
  "si_alpha serial_interval_mean serial_interval_sigma =
     (if serial_interval_sigma ^ 2 = 0 then None
      else Some (serial_interval_mean ^ 2 / serial_interval_sigma ^ 2))"

definition ExpectedGrowth :: "real \<Rightarrow> real \<Rightarrow> real list list \<Rightarrow> real list list option" where
  "ExpectedGrowth serial_interval_mean serial_interval_sigma ExpectedLogR =
     (case (si_beta serial_interval_mean serial_interval_sigma,
            si_alpha serial_interval_mean serial_interval_sigma) of
        (Some b, Some a) \<Rightarrow>
          if a = 0 then None
          else Some (map (map (\<lambda>x. b * (exp (x / a) - 1))) ExpectedLogR)
      | _ \<Rightarrow> None)"

section \<open>\<^verbatim>\<open>build_model\<close>: the infection curve\<close>

text \<open>\<^verbatim>\<open>cumsum(axis=1)\<close>: the running sums of a row.\<close>

fun cumsum_from :: "real \<Rightarrow> real list \<Rightarrow> real list" where
  "cumsum_from acc [] = []"
| "cumsum_from acc (x # xs) = (acc + x) # cumsum_from (acc + x) xs"

definition cumsum :: "real list \<Rightarrow> real list" where
  "cumsum xs = cumsum_from 0 xs"

text \<open>
  A float64 result of \<^verbatim>\<open>exp\<close>: a finite number or \<^verbatim>\<open>inf\<close>. \<open>float_exp\<close> is
  \<^verbatim>\<open>pm.math.exp\<close> on one number, with its range written out and the rounding of a
  finite result left out: a value that rounds to \<open>2 ^ 1024\<close> or more (from
  \<open>2 ^ 1024 - 2 ^ 970\<close> on, half a unit above the largest double) overflows to \<^verbatim>\<open>inf\<close>;
  a value of at most \<open>2 ^ -1075\<close> (half the smallest subnormal) underflows to \<open>0.0\<close>.
\<close>

datatype float_result = Finite real | PlusInf

definition float_exp :: "real \<Rightarrow> float_result" where
  "float_exp x =
     (if 2 ^ 1024 - 2 ^ 970 \<le> exp x then PlusInf
      else if exp x \<le> 1 / 2 ^ 1075 then Finite 0
      else Finite (exp x))"

text \<open>
  Lines 1014--1016 and 1051--1053:
  \<^verbatim>\<open>pm.math.exp(self.InitialSizeCases_log + self.GrowthCases.cumsum(axis=1))\<close>, with
  the initial size of shape \<^verbatim>\<open>(nORs, 1)\<close> broadcast along the days. Nothing is applied
  to the sum before \<^verbatim>\<open>exp\<close> nor to its result. The sum itself is taken exactly. The
  deaths channel is the same expression on \<^verbatim>\<open>InitialSizeDeaths_log\<close> and
  \<^verbatim>\<open>GrowthDeaths\<close>.
\<close>

definition Infected :: "real list \<Rightarrow> real list list \<Rightarrow> float_result list list" where
  "Infected InitialSize_log Growth =
     map (\<lambda>(i, row). map (\<lambda>s. float_exp (i + s)) (cumsum row)) (zip InitialSize_log Growth)"





section \<open>\<^verbatim>\<open>build_model\<close>: the two likelihoods\<close>

text \<open>
  \<^verbatim>\<open>a.reshape((n,))\<close> flattens row by row and raises \<^verbatim>\<open>ValueError\<close> unless the array
  has exactly \<open>n\<close> cells. \<^verbatim>\<open>a[:, k:]\<close> drops the first \<open>k\<close> columns.
\<close>

definition reshape_flat :: "'a list list \<Rightarrow> nat \<Rightarrow> py_error + 'a list" where
  "reshape_flat a n = (if length (concat a) = n then Inr (concat a) else Inl ValueError)"

definition drop_columns :: "nat \<Rightarrow> 'a list list \<Rightarrow> 'a list list" where
  "drop_columns k a = map (drop k) a"

text \<open>
  \<^verbatim>\<open>flat[index_array]\<close>, with \<^verbatim>\<open>index_array = np.array(python_list)\<close>. An index past
  the end raises \<^verbatim>\<open>IndexError\<close>. So does the array made from an empty list: its dtype is
  \<^verbatim>\<open>float64\<close>, which numpy refuses as an index.
\<close>

definition index_with :: "'a list \<Rightarrow> nat list \<Rightarrow> py_error + 'a list" where
  "index_with flat idx =
     (if idx = [] then Inl IndexError
      else if list_all (\<lambda>i. i < length flat) idx then Inr (map (\<lambda>i. flat ! i) idx)
      else Inl IndexError)"

text \<open>The declared likelihood node, as far as the claims go: where \<^verbatim>\<open>mu\<close> is gathered
  from, the dispersion, and the observed values.\<close>

datatype dispersion = Learned_Phi | Fixed real

record likelihood =
  mu_index :: "nat list"
  alpha :: dispersion
  observed :: "fval list"

definition select_observed ::
  "fval list list \<Rightarrow> nat \<Rightarrow> nat list \<Rightarrow> dispersion \<Rightarrow> py_error + likelihood" where
  "select_observed a n idx disp =
     (case reshape_flat a n of
        Inl e \<Rightarrow> Inl e
      | Inr flat \<Rightarrow>
          (case index_with flat idx of
             Inl e \<Rightarrow> Inl e
           | Inr obs \<Rightarrow> Inr \<lparr> mu_index = idx, alpha = disp, observed = obs \<rparr>))"

text \<open>
  \<^verbatim>\<open>CMCombined_Final.build_model\<close>, lines 1027--1049: the cases likelihood. Both
  branches take the observed values from
  \<^verbatim>\<open>self.d.NewCases.data.reshape((nORs * nDs,))[self.all_observed_active]\<close>.
\<close>

definition CMCombined_Final_ObservedCases :: "cm_model \<Rightarrow> real option \<Rightarrow> py_error + likelihood" where
  "CMCombined_Final_ObservedCases m conf_noise =
     (case conf_noise of
        None \<Rightarrow>
          select_observed (NewCases_data (self_d m)) (nORs m * nDs (self_d m))
            (all_observed_active m) Learned_Phi
      | Some noise \<Rightarrow>
          select_observed (NewCases_data (self_d m)) (nORs m * nDs (self_d m))
            (all_observed_active m) (Fixed noise))"

text \<open>
  \<^verbatim>\<open>CMCombined_Final.build_model\<close>, lines 1064--1087. With \<^verbatim>\<open>deaths_noise is None\<close>
  the observed values come from \<^verbatim>\<open>self.d.NewDeaths.data.reshape((nORs * nDs,))\<close>; with a
  number they come from \<^verbatim>\<open>self.d.NewDeaths.data[:, self.CMDelayCut:].reshape((nORs * nDs,))\<close>.
\<close>

definition CMCombined_Final_ObservedDeaths :: "cm_model \<Rightarrow> real option \<Rightarrow> py_error + likelihood" where
  "CMCombined_Final_ObservedDeaths m deaths_noise =
     (case deaths_noise of
        None \<Rightarrow>
          select_observed (NewDeaths_data (self_d m)) (nORs m * nDs (self_d m))
            (all_observed_deaths m) Learned_Phi
      | Some noise \<Rightarrow>
          select_observed (drop_columns (CMDelayCut m) (NewDeaths_data (self_d m)))
            (nORs m * nDs (self_d m)) (all_observed_deaths m) (Fixed noise))"

text \<open>The same node in \<^verbatim>\<open>CMCombined_Final_DifDelays.build_model\<close>, lines 1811--1833
  (and, word for word, in \<^verbatim>\<open>CMCombined_Final_NoNoise\<close>, lines 3201--3223): both
  branches reshape the whole array.\<close>

definition CMCombined_Final_DifDelays_ObservedDeaths ::
  "cm_model \<Rightarrow> real option \<Rightarrow> py_error + likelihood" where
  "CMCombined_Final_DifDelays_ObservedDeaths m deaths_noise =
     (case deaths_noise of
        None \<Rightarrow>
          select_observed (NewDeaths_data (self_d m)) (nORs m * nDs (self_d m))
            (all_observed_deaths m) Learned_Phi
      | Some noise \<Rightarrow>
          select_observed (NewDeaths_data (self_d m)) (nORs m * nDs (self_d m))
            (all_observed_deaths m) (Fixed noise))"

section \<open>\<^verbatim>\<open>CMCombined_Final_ICL.build_model\<close>: the renewal loop\<close>

text \<open>The serial interval \<^verbatim>\<open>self.SI\<close> (lines 5151--5158), as exact decimals.\<close>

definition SI :: "real list" where
  "SI = [586777778 / 10 ^ 12, 115317556 / 10 ^ 10, 522088556 / 10 ^ 10, 114080678 / 10 ^ 9,
         162762756 / 10 ^ 9, 176006922 / 10 ^ 9, 156763867 / 10 ^ 9, 121060233 / 10 ^ 9,
         838630333 / 10 ^ 10, 532850556 / 10 ^ 10, 315776111 / 10 ^ 10, 176515889 / 10 ^ 10,
         938466667 / 10 ^ 11, 479226667 / 10 ^ 11, 236040000 / 10 ^ 11, 113427778 / 10 ^ 11,
         526733333 / 10 ^ 12, 238822222 / 10 ^ 12, 103755556 / 10 ^ 12, 456222222 / 10 ^ 13,
         201333333 / 10 ^ 13, 767777778 / 10 ^ 14, 384444444 / 10 ^ 14, 170000000 / 10 ^ 14,
         566666667 / 10 ^ 15, 222222222 / 10 ^ 15, 111111111 / 10 ^ 15, 222222222 / 10 ^ 16,
         111111111 / 10 ^ 16, 333333333 / 10 ^ 16]"

definition conv_padding :: nat where
  "conv_padding = 7"

text \<open>
  Lines 5273--5276: a tensor of zeros of shape \<^verbatim>\<open>(2, nORs, nODs + SI.size)\<close> whose
  positions \<^verbatim>\<open>filter_size - conv_padding\<close> up to \<^verbatim>\<open>filter_size\<close> (excluded) are set to
  \<^verbatim>\<open>exp(InitialSize_log[c, r])\<close>. \<open>set_slice\<close> is \<^verbatim>\<open>T.set_subtensor\<close> on a slice of the
  last axis.
\<close>

definition set_slice :: "'a list \<Rightarrow> nat \<Rightarrow> nat \<Rightarrow> 'a list \<Rightarrow> 'a list" where
  "set_slice row lo hi vals = take lo row @ vals @ drop hi row"

definition ICL_seed :: "real list \<Rightarrow> real list list \<Rightarrow> nat \<Rightarrow> nat \<Rightarrow> real list list list" where
  "ICL_seed si InitialSize_log n_regions n_obs_days =
     (let filter_size = length si in
      map (\<lambda>c. map (\<lambda>r. set_slice (replicate (n_obs_days + length si) 0)
                              (filter_size - conv_padding) filter_size
                              (replicate conv_padding (exp (InitialSize_log ! c ! r))))
                   [0..<n_regions])
          [0..<2])"

text \<open>
  One pass of the loop body (lines 5281--5284) on the row of one channel and region:
  \<^verbatim>\<open>val = sum(R[d] * infected[d:(d + SI.size)] * SI_rev)\<close>, written to position
  \<^verbatim>\<open>d + SI.size\<close>. \<^verbatim>\<open>SI_rev\<close> is \<^verbatim>\<open>self.SI[::-1]\<close>.
\<close>

definition renewal_row :: "real list \<Rightarrow> real list \<Rightarrow> nat \<Rightarrow> real list \<Rightarrow> real list" where
  "renewal_row si R_row day row =
     row[day + length si :=
           sum_list (map (\<lambda>(x, s). R_row ! day * x * s)
                         (zip (take (length si) (drop day row)) (rev si)))]"

definition renewal_step ::
  "real list \<Rightarrow> real list list list \<Rightarrow> nat \<Rightarrow> nat \<Rightarrow> real list list list \<Rightarrow> real list list list" where
  "renewal_step si R n_regions day infected =
     map (\<lambda>c. map (\<lambda>r. renewal_row si (R ! c ! r) day (infected ! c ! r)) [0..<n_regions])
         [0..<2]"

text \<open>The whole loop, with \<^verbatim>\<open>R = exp(LogR)\<close>, and the two curves cut out of the result
  (lines 5299--5307): \<^verbatim>\<open>res[c, :, SI.size:]\<close>.\<close>

definition ICL_infected ::
  "real list \<Rightarrow> real list list \<Rightarrow> real list list list \<Rightarrow> nat \<Rightarrow> nat \<Rightarrow> real list list list" where
  "ICL_infected si InitialSize_log LogR n_regions n_obs_days =
     foldl (\<lambda>infected day. renewal_step si (map (map (map exp)) LogR) n_regions day infected)
           (ICL_seed si InitialSize_log n_regions n_obs_days)
           [0..<n_obs_days]"

definition ICL_Infected_curves ::
  "real list list \<Rightarrow> real list list list \<Rightarrow> nat \<Rightarrow> nat \<Rightarrow> real list list list" where
  "ICL_Infected_curves InitialSize_log LogR n_regions n_obs_days =
     map (map (drop (length SI))) (ICL_infected SI InitialSize_log LogR n_regions n_obs_days)"

text \<open>The value the recursion reads \<open>k\<close> days before day \<open>day\<close>: the curve itself from day
  0 on, the seed on the \<open>conv_padding\<close> days before it, zero earlier.\<close>

definition ICL_past :: "real list \<Rightarrow> real \<Rightarrow> int \<Rightarrow> real" where
  "ICL_past curve seed j =
     (if 0 \<le> j then curve ! nat j else if - int conv_padding \<le> j then seed else 0)"

text \<open>The module constants \<^verbatim>\<open>SI_ALPHA\<close>, \<^verbatim>\<open>SI_BETA\<close> and the default arguments
  \<^verbatim>\<open>serial_interval_mean=SI_ALPHA / SI_BETA\<close>,
  \<^verbatim>\<open>serial_interval_sigma=np.sqrt(SI_ALPHA / SI_BETA ** 2)\<close>.\<close>

definition SI_ALPHA :: real where
  "SI_ALPHA = 7935 / 1000"

definition SI_BETA :: real where
  "SI_BETA = 1188 / 1000"

definition default_serial_interval_mean :: real where
  "default_serial_interval_mean = SI_ALPHA / SI_BETA"

definition default_serial_interval_sigma :: real where
  "default_serial_interval_sigma = sqrt (SI_ALPHA / SI_BETA ^ 2)"

text \<open>
  The array operations of \<^verbatim>\<open>CMCombined_Final.build_model\<close> in the order they run: the
  cases likelihood is declared first, the death likelihood after it, and an exception of
  the first stops the build. \<open>CMCombined_Final_build\<close> is construction followed by the
  build.
\<close>

definition CMCombined_Final_build_model ::
  "cm_model \<Rightarrow> real option \<Rightarrow> real option \<Rightarrow> py_error + (likelihood \<times> likelihood)" where
  "CMCombined_Final_build_model m conf_noise deaths_noise =
     (case CMCombined_Final_ObservedCases m conf_noise of
        Inl e \<Rightarrow> Inl e
      | Inr ObservedCases \<Rightarrow>
          (case CMCombined_Final_ObservedDeaths m deaths_noise of
             Inl e \<Rightarrow> Inl e
           | Inr ObservedDeaths \<Rightarrow> Inr (ObservedCases, ObservedDeaths)))"

definition CMCombined_Final_build ::
  "dataset \<Rightarrow> real option \<Rightarrow> real option \<Rightarrow> py_error + (likelihood \<times> likelihood)" where
  "CMCombined_Final_build data conf_noise deaths_noise =
     (case CMCombined_Final_init data of
        Inl e \<Rightarrow> Inl e
      | Inr m \<Rightarrow> CMCombined_Final_build_model m conf_noise deaths_noise)"

section \<open>Closed forms of the mask loops\<close>

text \<open>What the loops compute, written without the loop: a mask row after the first \<open>n\<close>
  days of a region, the mask after the first \<open>m\<close> regions, and the list of flat indices of
  the included cells, region by region and day by day.\<close>

definition row_after :: "(nat \<Rightarrow> bool) \<Rightarrow> nat \<Rightarrow> nat \<Rightarrow> bool list \<Rightarrow> bool list" where
  "row_after inc off n row =
     map (\<lambda>j. if off \<le> j \<and> j < off + n then \<not> inc (j - off) else row ! j) [0..<length row]"

definition mask_after ::
  "(nat \<Rightarrow> nat \<Rightarrow> bool) \<Rightarrow> nat \<Rightarrow> nat \<Rightarrow> nat \<Rightarrow> bool list list \<Rightarrow> bool list list" where
  "mask_after inc off m n_days msk =
     map (\<lambda>r. if r < m then row_after (inc r) off n_days (msk ! r) else msk ! r) [0..<length msk]"

definition observed_indices :: "(nat \<Rightarrow> nat \<Rightarrow> bool) \<Rightarrow> nat \<Rightarrow> nat \<Rightarrow> nat list" where
  "observed_indices inc n_regions n_days =
     concat (map (\<lambda>r. map (\<lambda>d. r * n_days + d) (filter (inc r) [0..<n_days])) [0..<n_regions])"


text \<open>The renewal loop seen from one channel and region: the row after the first \<open>n\<close>
  passes, and the row the loop starts from.\<close>

definition renewal_run :: "real list \<Rightarrow> real list \<Rightarrow> nat \<Rightarrow> real list \<Rightarrow> real list" where
  "renewal_run si R_row n row = foldl (\<lambda>row day. renewal_row si R_row day row) row [0..<n]"

definition seed_row :: "real list \<Rightarrow> real \<Rightarrow> nat \<Rightarrow> real list" where
  "seed_row si seed n_obs_days =
     set_slice (replicate (n_obs_days + length si) 0) (length si - conv_padding) (length si)
       (replicate conv_padding seed)"

definition shape3 :: "'a list list list \<Rightarrow> nat \<Rightarrow> nat \<Rightarrow> nat \<Rightarrow> bool" where
  "shape3 a n m k = (length a = n \<and> list_all (\<lambda>b. shape2 b m k) a)"

section \<open>Concrete datasets\<close>

text \<open>Two regions over 40 days, nothing masked upstream, every cumulative count known.
  The daily deaths of the first region are all NaN.\<close>

definition forty_days :: dataset where
  "forty_days =
     \<lparr> Rs = [''AA'', ''BB''],
       Ds = [0..<40],
       CMs = [''Mask Wearing'', ''Symptomatic Testing''],
       ActiveCMs = [[replicate 40 0, replicate 40 0], [replicate 40 1, replicate 40 1]],
       NewCases_mask = replicate 2 (replicate 40 False),
       NewCases_data = replicate 2 (replicate 40 (Val 5)),
       NewDeaths_mask = replicate 2 (replicate 40 False),
       NewDeaths_data = [replicate 40 NaN, replicate 40 (Val 2)],
       Confirmed_data = replicate 2 (replicate 40 (Val 100)),
       Deaths_data = replicate 2 (replicate 40 (Val 10)) \<rparr>"


text \<open>Two regions over three days. In the first, symptomatic testing is active on exactly
  one day; in the second, on all three.\<close>

definition three_days :: dataset where
  "three_days =
     \<lparr> Rs = [''AA'', ''BB''],
       Ds = [0, 1, 2],
       CMs = [''Mask Wearing'', ''Symptomatic Testing''],
       ActiveCMs = [[[0, 1, 1], [0, 1, 0]], [[1, 1, 1], [1, 1, 1]]],
       NewCases_mask = [[False, False, False], [False, False, False]],
       NewCases_data = [[Val 1, Val 2, Val 3], [Val 4, Val 5, Val 6]],
       NewDeaths_mask = [[False, False, False], [False, False, False]],
       NewDeaths_data = [[Val 0, Val 0, Val 1], [Val 0, Val 1, Val 1]],
       Confirmed_data = [[Val 100, Val 102, Val 105], [Val 100, Val 105, Val 111]],
       Deaths_data = [[Val 10, Val 10, Val 11], [Val 10, Val 11, Val 12]] \<rparr>"

text \<open>The 40-day dataset with the cumulative deaths of the first region all NaN.\<close>

definition no_deaths_region :: dataset where
  "no_deaths_region =
     forty_days\<lparr>Deaths_data := [replicate 40 NaN, replicate 40 (Val 10)]\<rparr>"

section \<open>The mask loops, proved equal to their closed forms\<close>

lemma for_each_append:
  "for_each f (xs @ ys) s = (case for_each f xs s of Inl e \<Rightarrow> Inl e | Inr s' \<Rightarrow> for_each f ys s')"
  by (induction xs arbitrary: s) (auto split: sum.splits)

lemma shape2_nth: "shape2 a n m \<Longrightarrow> r < n \<Longrightarrow> length (a ! r) = m"
  by (auto simp: shape2_def list_all_length)

lemma shape2_length: "shape2 a n m \<Longrightarrow> length a = n"
  by (simp add: shape2_def)

lemma row_after_0: "row_after inc off 0 row = row"
  by (rule nth_equalityI) (auto simp: row_after_def)

lemma row_after_length: "length (row_after inc off n row) = length row"
  by (simp add: row_after_def)

lemma row_loop:
  assumes f: "\<And>d obs msk'. d < n_days \<Longrightarrow> r < length msk' \<Longrightarrow> length (msk' ! r) = len \<Longrightarrow>
                f d (obs, msk') = cell_step n_days off ok r d (obs, msk')"
    and r: "r < length msk" and len: "length (msk ! r) = len"
    and fits: "\<And>d. d < n_days \<Longrightarrow> off + d < len" and n: "n \<le> n_days"
  shows "for_each f [0..<n] (obs, msk) =
         Inr (obs @ map (\<lambda>d. r * n_days + d) (filter (\<lambda>d. \<not> msk ! r ! (off + d) \<and> ok r d) [0..<n]),
              msk[r := row_after (\<lambda>d. \<not> msk ! r ! (off + d) \<and> ok r d) off n (msk ! r)])"
  using n
proof (induction n)
  case 0
  then show ?case by (simp add: row_after_0)
next
  case (Suc n)
  let ?inc = "\<lambda>d. \<not> msk ! r ! (off + d) \<and> ok r d"
  let ?m = "msk[r := row_after ?inc off n (msk ! r)]"
  have n: "n < n_days" using Suc.prems by simp
  have in_row: "off + n < len" using fits[OF n] .
  have lm: "r < length ?m" "length (?m ! r) = len"
    using r len by (simp_all add: row_after_length)
  have at: "?m ! r ! (off + n) = msk ! r ! (off + n)"
    using r in_row len by (simp add: row_after_def)
  have upd: "set2 ?m r (off + n) True = msk[r := (row_after ?inc off n (msk ! r))[off + n := True]]"
    using r by (simp add: set2_def)
  have next_inc: "?inc n \<Longrightarrow> row_after ?inc off (Suc n) (msk ! r) = row_after ?inc off n (msk ! r)"
  proof (rule nth_equalityI)
    fix j assume i: "?inc n" and j: "j < length (row_after ?inc off (Suc n) (msk ! r))"
    show "row_after ?inc off (Suc n) (msk ! r) ! j = row_after ?inc off n (msk ! r) ! j"
    proof (cases "j = off + n")
      case True
      then show ?thesis using i j by (simp add: row_after_def)
    next
      case False
      then have "(j < off + Suc n) = (j < off + n)" by auto
      then show ?thesis using j by (simp add: row_after_def)
    qed
  qed (simp add: row_after_length)
  have next_exc: "\<not> ?inc n \<Longrightarrow>
      row_after ?inc off (Suc n) (msk ! r) = (row_after ?inc off n (msk ! r))[off + n := True]"
  proof (rule nth_equalityI)
    fix j assume ni: "\<not> ?inc n" and j: "j < length (row_after ?inc off (Suc n) (msk ! r))"
    show "row_after ?inc off (Suc n) (msk ! r) ! j =
          (row_after ?inc off n (msk ! r))[off + n := True] ! j"
    proof (cases "j = off + n")
      case True
      then show ?thesis using ni j by (simp add: row_after_def)
    next
      case False
      then have "(j < off + Suc n) = (j < off + n)" by auto
      then show ?thesis using False j by (simp add: row_after_def)
    qed
  qed (simp add: row_after_length)
  show ?case
    using Suc.IH n next_inc next_exc
    by (simp add: for_each_append f[OF n lm] cell_step_def at upd)
qed

lemma region_loop:
  assumes body: "\<And>r d obs msk'. r < n_regions \<Longrightarrow> d < n_days \<Longrightarrow> r < length msk' \<Longrightarrow>
                   length (msk' ! r) = len \<Longrightarrow>
                   body r d (obs, msk') = cell_step n_days off ok r d (obs, msk')"
    and shape: "shape2 msk n_regions len"
    and fits: "\<And>d. d < n_days \<Longrightarrow> off + d < len" and m: "m \<le> n_regions"
  shows "for_each (\<lambda>r. for_each (body r) [0..<n_days]) [0..<m] (obs, msk) =
         Inr (obs @ observed_indices (\<lambda>r d. \<not> msk ! r ! (off + d) \<and> ok r d) m n_days,
              mask_after (\<lambda>r d. \<not> msk ! r ! (off + d) \<and> ok r d) off m n_days msk)"
  using m
proof (induction m)
  case 0
  have "mask_after (\<lambda>r d. \<not> msk ! r ! (off + d) \<and> ok r d) off 0 n_days msk = msk"
    by (auto simp: mask_after_def intro: nth_equalityI)
  then show ?case by (simp add: observed_indices_def)
next
  case (Suc m)
  let ?inc = "\<lambda>r d. \<not> msk ! r ! (off + d) \<and> ok r d"
  let ?M = "mask_after ?inc off m n_days msk"
  have len: "length msk = n_regions" and rows: "\<And>r. r < n_regions \<Longrightarrow> length (msk ! r) = len"
    using shape by (simp_all add: shape2_length shape2_nth)
  have m: "m < n_regions" using Suc.prems by simp
  have lM: "m < length ?M" using m len by (simp add: mask_after_def)
  have Mm: "?M ! m = msk ! m" using m len by (simp add: mask_after_def)
  have lMm: "length (?M ! m) = len" using Mm rows[OF m] by simp
  have row: "for_each (body m) [0..<n_days] (obs', ?M) =
         Inr (obs' @ map (\<lambda>d. m * n_days + d)
                        (filter (\<lambda>d. \<not> ?M ! m ! (off + d) \<and> ok m d) [0..<n_days]),
              ?M[m := row_after (\<lambda>d. \<not> ?M ! m ! (off + d) \<and> ok m d) off n_days (?M ! m)])" for obs'
    by (rule row_loop[where ok = ok and len = len]) (use body m lM lMm fits in auto)
  have upd: "?M[m := row_after (?inc m) off n_days (msk ! m)] =
             mask_after ?inc off (Suc m) n_days msk"
    using m len
    by (auto simp: mask_after_def less_Suc_eq nth_list_update intro!: nth_equalityI)
  have idx: "observed_indices ?inc (Suc m) n_days =
             observed_indices ?inc m n_days @ map (\<lambda>d. m * n_days + d) (filter (?inc m) [0..<n_days])"
    by (simp add: observed_indices_def)
  show ?case
    using Suc.IH m by (simp add: for_each_append row upd Mm idx)
qed

lemma observed_indices_mem:
  assumes "i \<in> set (observed_indices inc n_regions n_days)"
  shows "\<exists>r d. r < n_regions \<and> d < n_days \<and> i = r * n_days + d \<and> inc r d"
  using assms by (auto simp: observed_indices_def)

lemma flat_index_div: "d < n \<Longrightarrow> (r * n + d) div n = (r::nat)"
  by simp


lemma cases_loop_closed:
  assumes "shape2 msk n_regions n_days" "shape2 confirmed n_regions n_days"
  shows "region_day_loop (observed_active_cell n_days delay_cut confirmed) n_regions n_days ([], msk) =
         Inr (observed_indices (\<lambda>r d. \<not> msk ! r ! d \<and> d > delay_cut \<and> \<not> isnan (confirmed ! r ! d)
                                       \<and> int d < int n_days - 7) n_regions n_days,
              mask_after (\<lambda>r d. \<not> msk ! r ! d \<and> d > delay_cut \<and> \<not> isnan (confirmed ! r ! d)
                                       \<and> int d < int n_days - 7) 0 n_regions n_days msk)"
proof -
  have "for_each (\<lambda>r. for_each (observed_active_cell n_days delay_cut confirmed r) [0..<n_days])
          [0..<n_regions] ([], msk) =
        Inr ([] @ observed_indices (\<lambda>r d. \<not> msk ! r ! (0 + d) \<and>
                 (d > delay_cut \<and> \<not> isnan (confirmed ! r ! d) \<and> int d < int n_days - 7)) n_regions n_days,
             mask_after (\<lambda>r d. \<not> msk ! r ! (0 + d) \<and>
                 (d > delay_cut \<and> \<not> isnan (confirmed ! r ! d) \<and> int d < int n_days - 7))
               0 n_regions n_days msk)"
  proof (rule region_loop[where len = n_days])
    fix r d obs and msk' :: "bool list list"
    assume "r < n_regions" "d < n_days" "r < length msk'" "length (msk' ! r) = n_days"
    then show "observed_active_cell n_days delay_cut confirmed r d (obs, msk') =
               cell_step n_days 0 (\<lambda>r d. d > delay_cut \<and> \<not> isnan (confirmed ! r ! d)
                                   \<and> int d < int n_days - 7) r d (obs, msk')"
      using assms(2)
      by (auto simp: observed_active_cell_def cell_step_def get2_def shape2_nth shape2_length)
  qed (use assms in auto)
  then show ?thesis by (simp add: region_day_loop_def)
qed

lemma deaths_loop_closed:
  assumes "shape2 msk n_regions n_days" "shape2 deaths n_regions n_days"
  shows "region_day_loop (observed_deaths_cell n_days delay_cut deaths) n_regions n_days ([], msk) =
         Inr (observed_indices (\<lambda>r d. \<not> msk ! r ! d \<and> d > delay_cut \<and> \<not> isnan (deaths ! r ! d))
                n_regions n_days,
              mask_after (\<lambda>r d. \<not> msk ! r ! d \<and> d > delay_cut \<and> \<not> isnan (deaths ! r ! d))
                0 n_regions n_days msk)"
proof -
  have "for_each (\<lambda>r. for_each (observed_deaths_cell n_days delay_cut deaths r) [0..<n_days])
          [0..<n_regions] ([], msk) =
        Inr ([] @ observed_indices (\<lambda>r d. \<not> msk ! r ! (0 + d) \<and>
                 (d > delay_cut \<and> \<not> isnan (deaths ! r ! d))) n_regions n_days,
             mask_after (\<lambda>r d. \<not> msk ! r ! (0 + d) \<and> (d > delay_cut \<and> \<not> isnan (deaths ! r ! d)))
               0 n_regions n_days msk)"
  proof (rule region_loop[where len = n_days])
    fix r d obs and msk' :: "bool list list"
    assume "r < n_regions" "d < n_days" "r < length msk'" "length (msk' ! r) = n_days"
    then show "observed_deaths_cell n_days delay_cut deaths r d (obs, msk') =
               cell_step n_days 0 (\<lambda>r d. d > delay_cut \<and> \<not> isnan (deaths ! r ! d)) r d (obs, msk')"
      using assms(2)
      by (auto simp: observed_deaths_cell_def cell_step_def get2_def shape2_nth shape2_length)
  qed (use assms in auto)
  then show ?thesis by (simp add: region_day_loop_def)
qed

lemma cases_included_eq:
  "cases_included data =
     (\<lambda>r d. \<not> NewCases_mask data ! r ! d \<and> d > 30 \<and> \<not> isnan (Confirmed_data data ! r ! d)
            \<and> int d < int (nDs data) - 7)"
  by (intro ext) (simp add: cases_included_def)

lemma deaths_included_eq:
  "deaths_included data =
     (\<lambda>r d. \<not> NewDeaths_mask data ! r ! d \<and> d > 30 \<and> \<not> isnan (Deaths_data data ! r ! d))"
  by (intro ext) (simp add: deaths_included_def)

lemma CMCombined_Final_init_closed:
  assumes "aligned data"
  shows "CMCombined_Final_init data =
         Inr \<lparr> self_d = data\<lparr>NewCases_mask := mask_after (cases_included data) 0 (nRs data)
                                               (nDs data) (NewCases_mask data),
                             NewDeaths_mask := mask_after (deaths_included data) 0 (nRs data)
                                               (nDs data) (NewDeaths_mask data)\<rparr>,
               CMDelayCut = 30,
               ObservedDaysIndx = [30..<length (Ds data)],
               nORs = nRs data,
               nODs = length [30..<length (Ds data)],
               all_observed_active = observed_indices (cases_included data) (nRs data) (nDs data),
               all_observed_deaths = observed_indices (deaths_included data) (nRs data) (nDs data) \<rparr>"
proof -
  have c: "shape2 (NewCases_mask data) (nRs data) (nDs data)"
       "shape2 (Confirmed_data data) (nRs data) (nDs data)"
    and d: "shape2 (NewDeaths_mask data) (nRs data) (nDs data)"
       "shape2 (Deaths_data data) (nRs data) (nDs data)"
    using assms by (simp_all add: aligned_def)
  show ?thesis
    unfolding CMCombined_Final_init_def Let_def
    by (simp add: cases_loop_closed[OF c] deaths_loop_closed[OF d]
        cases_included_eq[symmetric] deaths_included_eq[symmetric])
qed

lemma mask_after_nth:
  assumes "shape2 msk n_regions len" "r < n_regions" "j < len"
  shows "mask_after inc off n_regions n_days msk ! r ! j =
         (if off \<le> j \<and> j < off + n_days then \<not> inc r (j - off) else msk ! r ! j)"
  using assms shape2_nth[OF assms(1,2)]
  by (simp add: mask_after_def row_after_def shape2_length)

lemma mask_after_shape:
  "shape2 msk n_regions len \<Longrightarrow> shape2 (mask_after inc off m n_days msk) n_regions len"
  by (auto simp: shape2_def mask_after_def row_after_length list_all_length)

lemma CMCombined_Final_mask_nth:
  assumes "aligned data" "r < nRs data" "d < nDs data"
  shows "mask_after (cases_included data) 0 (nRs data) (nDs data) (NewCases_mask data) ! r ! d
           = (\<not> cases_included data r d)"
    and "mask_after (deaths_included data) 0 (nRs data) (nDs data) (NewDeaths_mask data) ! r ! d
           = (\<not> deaths_included data r d)"
proof -
  have c: "shape2 (NewCases_mask data) (nRs data) (nDs data)"
    and d: "shape2 (NewDeaths_mask data) (nRs data) (nDs data)"
    using assms(1) by (simp_all add: aligned_def)
  show "mask_after (cases_included data) 0 (nRs data) (nDs data) (NewCases_mask data) ! r ! d
           = (\<not> cases_included data r d)"
    using assms(3) by (simp add: mask_after_nth[OF c assms(2,3)])
  show "mask_after (deaths_included data) 0 (nRs data) (nDs data) (NewDeaths_mask data) ! r ! d
           = (\<not> deaths_included data r d)"
    using assms(3) by (simp add: mask_after_nth[OF d assms(2,3)])
qed

lemma CMCombined_Final_mask_shape:
  assumes "aligned data"
  shows "shape2 (mask_after (cases_included data) 0 (nRs data) (nDs data) (NewCases_mask data))
           (nRs data) (nDs data)"
    and "shape2 (mask_after (deaths_included data) 0 (nRs data) (nDs data) (NewDeaths_mask data))
           (nRs data) (nDs data)"
  using assms by (simp_all add: aligned_def mask_after_shape)

subsection \<open>The loop of the ICL variant\<close>

lemma for_each_both:
  assumes h: "\<And>x a b. x \<in> set xs \<Longrightarrow>
                h x (a, b) = (case f x a of Inl e \<Rightarrow> Inl e
                              | Inr a' \<Rightarrow> (case g x b of Inl e \<Rightarrow> Inl e | Inr b' \<Rightarrow> Inr (a', b')))"
    and "for_each f xs a = Inr a'" and "for_each g xs b = Inr b'"
  shows "for_each h xs (a, b) = Inr (a', b')"
  using assms
proof (induction xs arbitrary: a b)
  case Nil
  then show ?case by simp
next
  case (Cons x xs)
  from Cons.prems(2) obtain a1 where a1: "f x a = Inr a1" "for_each f xs a1 = Inr a'"
    by (auto split: sum.splits)
  from Cons.prems(3) obtain b1 where b1: "g x b = Inr b1" "for_each g xs b1 = Inr b'"
    by (auto split: sum.splits)
  have "h x (a, b) = Inr (a1, b1)" using Cons.prems(1)[of x a b] a1 b1 by simp
  moreover have "for_each h xs (a1, b1) = Inr (a', b')"
    using Cons.prems(1) a1 b1 by (intro Cons.IH) simp_all
  ultimately show ?case by simp
qed

lemma nested_both:
  assumes h: "\<And>r d a b. d \<in> set ds \<Longrightarrow>
                h r d (a, b) = (case f r d a of Inl e \<Rightarrow> Inl e
                                | Inr a' \<Rightarrow> (case g r d b of Inl e \<Rightarrow> Inl e | Inr b' \<Rightarrow> Inr (a', b')))"
    and "for_each (\<lambda>r. for_each (f r) ds) rs a = Inr a'"
    and "for_each (\<lambda>r. for_each (g r) ds) rs b = Inr b'"
  shows "for_each (\<lambda>r. for_each (h r) ds) rs (a, b) = Inr (a', b')"
  using assms(2,3)
proof (induction rs arbitrary: a b)
  case Nil
  then show ?case by simp
next
  case (Cons r rs)
  from Cons.prems(1) obtain a1 where
    a1: "for_each (f r) ds a = Inr a1" "for_each (\<lambda>r. for_each (f r) ds) rs a1 = Inr a'"
    by (auto split: sum.splits)
  from Cons.prems(2) obtain b1 where
    b1: "for_each (g r) ds b = Inr b1" "for_each (\<lambda>r. for_each (g r) ds) rs b1 = Inr b'"
    by (auto split: sum.splits)
  have "for_each (h r) ds (a, b) = Inr (a1, b1)"
    using h a1(1) b1(1) by (intro for_each_both[where f = "f r" and g = "g r"]) simp_all
  then show ?case using Cons.IH[OF a1(2) b1(2)] by simp
qed

lemma ICL_channel_closed:
  assumes "shape2 msk n_regions len" "shape2 cumulative n_regions len"
    and fits: "\<And>d. d < n_days \<Longrightarrow> off + d < len"
  shows "region_day_loop (\<lambda>r d. ICL_channel n_days cumulative r d (off + d)) n_regions n_days ([], msk) =
         Inr (observed_indices (\<lambda>r d. \<not> msk ! r ! (off + d) \<and> \<not> isnan (cumulative ! r ! (off + d)))
                n_regions n_days,
              mask_after (\<lambda>r d. \<not> msk ! r ! (off + d) \<and> \<not> isnan (cumulative ! r ! (off + d)))
                off n_regions n_days msk)"
proof -
  have "for_each (\<lambda>r. for_each (\<lambda>d. ICL_channel n_days cumulative r d (off + d)) [0..<n_days])
          [0..<n_regions] ([], msk) =
        Inr ([] @ observed_indices (\<lambda>r d. \<not> msk ! r ! (off + d) \<and> \<not> isnan (cumulative ! r ! (off + d)))
                    n_regions n_days,
             mask_after (\<lambda>r d. \<not> msk ! r ! (off + d) \<and> \<not> isnan (cumulative ! r ! (off + d)))
               off n_regions n_days msk)"
  proof (rule region_loop[where len = len])
    fix r d obs and msk' :: "bool list list"
    assume "r < n_regions" "d < n_days" "r < length msk'" "length (msk' ! r) = len"
    then show "ICL_channel n_days cumulative r d (off + d) (obs, msk') =
               cell_step n_days off (\<lambda>r d. \<not> isnan (cumulative ! r ! (off + d))) r d (obs, msk')"
      using assms(2) fits[of d]
      by (auto simp: ICL_channel_def cell_step_def get2_def shape2_nth shape2_length)
  qed (use assms in auto)
  then show ?thesis by (simp add: region_day_loop_def)
qed

lemma ICL_cases_included_eq:
  "ICL_cases_included data =
     (\<lambda>r d. \<not> NewCases_mask data ! r ! (30 + d) \<and> \<not> isnan (Confirmed_data data ! r ! (30 + d)))"
  by (intro ext) (simp add: ICL_cases_included_def)

lemma ICL_deaths_included_eq:
  "ICL_deaths_included data =
     (\<lambda>r d. \<not> NewDeaths_mask data ! r ! (30 + d) \<and> \<not> isnan (Deaths_data data ! r ! (30 + d)))"
  by (intro ext) (simp add: ICL_deaths_included_def)

lemma CMCombined_Final_ICL_init_closed:
  assumes "aligned data"
  shows "CMCombined_Final_ICL_init data =
         Inr \<lparr> self_d = data\<lparr>NewCases_mask := mask_after (ICL_cases_included data) 30 (nRs data)
                                               (nDs data - 30) (NewCases_mask data),
                             NewDeaths_mask := mask_after (ICL_deaths_included data) 30 (nRs data)
                                               (nDs data - 30) (NewDeaths_mask data)\<rparr>,
               CMDelayCut = 30,
               ObservedDaysIndx = [30..<length (Ds data)],
               nORs = nRs data,
               nODs = length [30..<length (Ds data)],
               all_observed_active = observed_indices (ICL_cases_included data) (nRs data) (nDs data - 30),
               all_observed_deaths = observed_indices (ICL_deaths_included data) (nRs data) (nDs data - 30) \<rparr>"
proof -
  let ?days = "[30..<length (Ds data)]"
  let ?n = "nDs data - 30"
  have n: "length ?days = ?n" by (simp add: nDs_def)
  have fits: "\<And>d. d < ?n \<Longrightarrow> 30 + d < nDs data" by simp
  have c: "shape2 (NewCases_mask data) (nRs data) (nDs data)"
       "shape2 (Confirmed_data data) (nRs data) (nDs data)"
    and d: "shape2 (NewDeaths_mask data) (nRs data) (nDs data)"
       "shape2 (Deaths_data data) (nRs data) (nDs data)"
    using assms by (simp_all add: aligned_def)
  have cell: "ICL_cell ?days (Confirmed_data data) (Deaths_data data) r day (a, b) =
              (case ICL_channel ?n (Confirmed_data data) r day (30 + day) a of
                 Inl e \<Rightarrow> Inl e
               | Inr a' \<Rightarrow> (case ICL_channel ?n (Deaths_data data) r day (30 + day) b of
                             Inl e \<Rightarrow> Inl e
                           | Inr b' \<Rightarrow> Inr (a', b')))"
    if "day \<in> set [0..<?n]" for r day a b
    using that by (simp add: ICL_cell_def Let_def nDs_def split: sum.splits)
  have "for_each (\<lambda>r. for_each (ICL_cell ?days (Confirmed_data data) (Deaths_data data) r) [0..<?n])
          [0..<nRs data] (([], NewCases_mask data), ([], NewDeaths_mask data)) =
        Inr ((observed_indices (ICL_cases_included data) (nRs data) ?n,
              mask_after (ICL_cases_included data) 30 (nRs data) ?n (NewCases_mask data)),
             (observed_indices (ICL_deaths_included data) (nRs data) ?n,
              mask_after (ICL_deaths_included data) 30 (nRs data) ?n (NewDeaths_mask data)))"
    by (rule nested_both[where
          f = "\<lambda>r day. ICL_channel ?n (Confirmed_data data) r day (30 + day)" and
          g = "\<lambda>r day. ICL_channel ?n (Deaths_data data) r day (30 + day)"])
       (use cell ICL_channel_closed[OF c fits] ICL_channel_closed[OF d fits] in
         \<open>simp_all add: region_day_loop_def ICL_cases_included_eq ICL_deaths_included_eq\<close>)
  then show ?thesis
    unfolding CMCombined_Final_ICL_init_def Let_def region_day_loop_def n
    by simp
qed

lemma CMCombined_Final_ICL_mask_nth:
  assumes "aligned data" "r < nRs data" "d < nDs data"
  shows "mask_after (ICL_cases_included data) 30 (nRs data) (nDs data - 30) (NewCases_mask data) ! r ! d
           = (if 30 \<le> d then \<not> ICL_cases_included data r (d - 30) else NewCases_mask data ! r ! d)"
    and "mask_after (ICL_deaths_included data) 30 (nRs data) (nDs data - 30) (NewDeaths_mask data) ! r ! d
           = (if 30 \<le> d then \<not> ICL_deaths_included data r (d - 30) else NewDeaths_mask data ! r ! d)"
proof -
  have c: "shape2 (NewCases_mask data) (nRs data) (nDs data)"
    and d: "shape2 (NewDeaths_mask data) (nRs data) (nDs data)"
    using assms(1) by (simp_all add: aligned_def)
  show "mask_after (ICL_cases_included data) 30 (nRs data) (nDs data - 30) (NewCases_mask data) ! r ! d
           = (if 30 \<le> d then \<not> ICL_cases_included data r (d - 30) else NewCases_mask data ! r ! d)"
    using assms(3) by (simp add: mask_after_nth[OF c assms(2,3)])
  show "mask_after (ICL_deaths_included data) 30 (nRs data) (nDs data - 30) (NewDeaths_mask data) ! r ! d
           = (if 30 \<le> d then \<not> ICL_deaths_included data r (d - 30) else NewDeaths_mask data ! r ! d)"
    using assms(3) by (simp add: mask_after_nth[OF d assms(2,3)])
qed

lemma shape2_concat_length: "shape2 a n m \<Longrightarrow> length (concat a) = n * m"
proof -
  have "list_all (\<lambda>row. length row = m) a \<Longrightarrow> length (concat a) = length a * m"
    by (induction a) simp_all
  then show "shape2 a n m \<Longrightarrow> length (concat a) = n * m"
    by (auto simp: shape2_def)
qed

lemma flat_index_less:
  assumes "r < n_regions" "d < n_days"
  shows "r * n_days + d < n_regions * (n_days::nat)"
proof -
  have "r * n_days + d < Suc r * n_days" using assms(2) by simp
  also have "\<dots> \<le> n_regions * n_days" using assms(1) by (intro mult_le_mono1) simp
  finally show ?thesis .
qed

section \<open>The likelihood index sets (C1)\<close>




section \<open>The caller's masks after construction (C9)\<close>

lemma CMCombined_Final_masks:
  assumes "aligned data"
  shows "\<exists>m. CMCombined_Final_init data = Inr m \<and>
            self_d m = data\<lparr>NewCases_mask := NewCases_mask (self_d m),
                            NewDeaths_mask := NewDeaths_mask (self_d m)\<rparr> \<and>
            shape2 (NewCases_mask (self_d m)) (nRs data) (nDs data) \<and>
            shape2 (NewDeaths_mask (self_d m)) (nRs data) (nDs data) \<and>
            (\<forall>r < nRs data. \<forall>d < nDs data.
               NewCases_mask (self_d m) ! r ! d =
                 (NewCases_mask data ! r ! d \<or>
                  \<not> (d > 30 \<and> \<not> isnan (Confirmed_data data ! r ! d) \<and> int d < int (nDs data) - 7)) \<and>
               NewDeaths_mask (self_d m) ! r ! d =
                 (NewDeaths_mask data ! r ! d \<or>
                  \<not> (d > 30 \<and> \<not> isnan (Deaths_data data ! r ! d))))"
  by (auto simp: CMCombined_Final_init_closed[OF assms] CMCombined_Final_mask_shape[OF assms]
      CMCombined_Final_mask_nth[OF assms] cases_included_def deaths_included_def)

lemma CMCombined_Final_ICL_masks:
  assumes "aligned data"
  shows "\<exists>m. CMCombined_Final_ICL_init data = Inr m \<and>
            self_d m = data\<lparr>NewCases_mask := NewCases_mask (self_d m),
                            NewDeaths_mask := NewDeaths_mask (self_d m)\<rparr> \<and>
            (\<forall>r < nRs data. \<forall>d < nDs data.
               NewCases_mask (self_d m) ! r ! d =
                 (NewCases_mask data ! r ! d \<or> (30 \<le> d \<and> isnan (Confirmed_data data ! r ! d))) \<and>
               NewDeaths_mask (self_d m) ! r ! d =
                 (NewDeaths_mask data ! r ! d \<or> (30 \<le> d \<and> isnan (Deaths_data data ! r ! d))))"
  by (auto simp: CMCombined_Final_ICL_init_closed[OF assms] CMCombined_Final_ICL_mask_nth[OF assms]
      ICL_cases_included_def ICL_deaths_included_def)

lemma CMActive_Final_masks:
  assumes "aligned data"
  shows "\<exists>observed_days data'. CMActive_Final_init data = Inr (observed_days, data') \<and>
            data' = data\<lparr>NewCases_mask := NewCases_mask data'\<rparr> \<and>
            (\<forall>r < nRs data. \<forall>d < nDs data.
               NewCases_mask data' ! r ! d =
                 (NewCases_mask data ! r ! d \<or>
                  \<not> (d > 30 \<and> \<not> isnan (Confirmed_data data ! r ! d) \<and> int d < int (nDs data) - 7)))"
proof -
  have c: "shape2 (NewCases_mask data) (nRs data) (nDs data)"
       "shape2 (Confirmed_data data) (nRs data) (nDs data)"
    using assms by (simp_all add: aligned_def)
  have "CMActive_Final_init data =
        Inr (observed_indices (cases_included data) (nRs data) (nDs data),
             data\<lparr>NewCases_mask := mask_after (cases_included data) 0 (nRs data) (nDs data)
                                      (NewCases_mask data)\<rparr>)"
    unfolding CMActive_Final_init_def Let_def
    by (simp add: cases_loop_closed[OF c] cases_included_eq[symmetric])
  then show ?thesis
    by (auto simp: CMCombined_Final_mask_nth[OF assms] cases_included_def)
qed

lemma CMDeath_Final_loop:
  assumes "shape2 msk n_regions n_days" "shape2 deaths n_regions n_days" "m \<le> n_regions"
  shows "for_each (\<lambda>r. for_each (CMDeath_Final_cell n_days delay_cut msk deaths r) [0..<n_days])
           [0..<m] acc0 =
         Inr (acc0 @
              observed_indices (\<lambda>r d. \<not> msk ! r ! d \<and> d > delay_cut \<and> \<not> isnan (deaths ! r ! d))
                m n_days)"
  using assms(3)
proof (induction m arbitrary: acc0)
  case 0
  then show ?case by (simp add: observed_indices_def)
next
  case (Suc m)
  let ?inc = "\<lambda>r d. \<not> msk ! r ! d \<and> d > delay_cut \<and> \<not> isnan (deaths ! r ! d)"
  have m: "m < n_regions" using Suc.prems by simp
  have row: "for_each (CMDeath_Final_cell n_days delay_cut msk deaths m) [0..<n] obs =
             Inr (obs @ map (\<lambda>d. m * n_days + d) (filter (?inc m) [0..<n]))"
    if "n \<le> n_days" for n obs
    using that
  proof (induction n)
    case 0
    then show ?case by simp
  next
    case (Suc n)
    then have "n < n_days" by simp
    then have "CMDeath_Final_cell n_days delay_cut msk deaths m n obs' =
               Inr (if ?inc m n then obs' @ [m * n_days + n] else obs')" for obs'
      using assms(1,2) m
      by (auto simp: CMDeath_Final_cell_def get2_def shape2_nth shape2_length)
    then show ?case using Suc by (simp add: for_each_append)
  qed
  show ?case
    using Suc.IH[of acc0] m by (simp add: for_each_append row observed_indices_def)
qed

lemma CMDeath_Final_init_closed:
  assumes "aligned data"
  shows "CMDeath_Final_init data =
         Inr (observed_indices (deaths_included data) (nRs data) (nDs data), data)"
proof -
  have d: "shape2 (NewDeaths_mask data) (nRs data) (nDs data)"
       "shape2 (Deaths_data data) (nRs data) (nDs data)"
    using assms by (simp_all add: aligned_def)
  show ?thesis
    unfolding CMDeath_Final_init_def Let_def region_day_loop_def
    by (simp add: CMDeath_Final_loop[OF d] deaths_included_eq[symmetric])
qed

lemma CMCombined_Final_DifDelays_masks:
  assumes "aligned data" and "CMCombined_Final_DifDelays_init data = Inr m"
  shows "NewCases_mask (self_d m) =
           mask_after (cases_included data) 0 (nRs data) (nDs data) (NewCases_mask data)"
    and "NewDeaths_mask (self_d m) =
           mask_after (deaths_included data) 0 (nRs data) (nDs data) (NewDeaths_mask data)"
proof -
  have c: "shape2 (NewCases_mask data) (nRs data) (nDs data)"
       "shape2 (Confirmed_data data) (nRs data) (nDs data)"
    and d: "shape2 (NewDeaths_mask data) (nRs data) (nDs data)"
       "shape2 (Deaths_data data) (nRs data) (nDs data)"
    using assms(1) by (simp_all add: aligned_def)
  have n: "nRs (data\<lparr>ActiveCMs := x\<rparr>) = nRs data" "nDs (data\<lparr>ActiveCMs := x\<rparr>) = nDs data" for x
    by (simp_all add: nRs_def nDs_def)
  have both: "NewCases_mask (self_d m) =
           mask_after (cases_included data) 0 (nRs data) (nDs data) (NewCases_mask data) \<and>
         NewDeaths_mask (self_d m) =
           mask_after (deaths_included data) 0 (nRs data) (nDs data) (NewDeaths_mask data)"
    using assms(2) unfolding CMCombined_Final_DifDelays_init_def Let_def
    by (auto simp: n cases_loop_closed[OF c] deaths_loop_closed[OF d]
        cases_included_eq[symmetric] deaths_included_eq[symmetric]
        split: sum.splits if_splits)
  show "NewCases_mask (self_d m) =
           mask_after (cases_included data) 0 (nRs data) (nDs data) (NewCases_mask data)"
    and "NewDeaths_mask (self_d m) =
           mask_after (deaths_included data) 0 (nRs data) (nDs data) (NewDeaths_mask data)"
    using both by simp_all
qed

text \<open>
  C9, as amended. The constructors write the caller's mask arrays in place, each variant
  in its own way. On a rectangular dataset:

  \<^verbatim>\<open>CMCombined_Final\<close> returns; afterwards the dataset object differs from the input in
  \<^verbatim>\<open>NewCases.mask\<close> and \<^verbatim>\<open>NewDeaths.mask\<close> at most; both keep their shape; and a flag is
  set exactly where it was set before or the cell fails the rest of the inclusion test
  (the day is not past 30, the cumulative count is NaN or, for cases, the day is in the
  trailing week). The same rule holds of \<^verbatim>\<open>CMCombined_Final_DifDelays\<close> whenever its
  constructor returns (the loops are also those of \<^verbatim>\<open>_V3\<close>, \<^verbatim>\<open>_NoNoise\<close>,
  \<^verbatim>\<open>CMCombined_Additive\<close> and \<^verbatim>\<open>_DifEffects\<close>).

  \<^verbatim>\<open>CMCombined_Final_ICL\<close> returns; the two masks alone may differ; a flag is set
  exactly where it was set before or the day is 30 or later and the cumulative count is
  NaN.

  \<^verbatim>\<open>CMActive_Final\<close> returns; \<^verbatim>\<open>NewCases.mask\<close> alone may differ, by the cases rule of
  \<^verbatim>\<open>CMCombined_Final\<close>; \<^verbatim>\<open>NewDeaths.mask\<close> is as it was.

  \<^verbatim>\<open>CMDeath_Final\<close> returns and leaves the whole dataset as it was.
\<close>

theorem masks_after_construction:
  assumes "aligned data"
  shows "(\<exists>m. CMCombined_Final_init data = Inr m \<and>
            self_d m = data\<lparr>NewCases_mask := NewCases_mask (self_d m),
                            NewDeaths_mask := NewDeaths_mask (self_d m)\<rparr> \<and>
            shape2 (NewCases_mask (self_d m)) (nRs data) (nDs data) \<and>
            shape2 (NewDeaths_mask (self_d m)) (nRs data) (nDs data) \<and>
            (\<forall>r < nRs data. \<forall>d < nDs data.
               NewCases_mask (self_d m) ! r ! d =
                 (NewCases_mask data ! r ! d \<or>
                  \<not> (d > 30 \<and> \<not> isnan (Confirmed_data data ! r ! d) \<and> int d < int (nDs data) - 7)) \<and>
               NewDeaths_mask (self_d m) ! r ! d =
                 (NewDeaths_mask data ! r ! d \<or>
                  \<not> (d > 30 \<and> \<not> isnan (Deaths_data data ! r ! d))))) \<and>
         (\<forall>m. CMCombined_Final_DifDelays_init data = Inr m \<longrightarrow>
            (\<forall>r < nRs data. \<forall>d < nDs data.
               NewCases_mask (self_d m) ! r ! d =
                 (NewCases_mask data ! r ! d \<or>
                  \<not> (d > 30 \<and> \<not> isnan (Confirmed_data data ! r ! d) \<and> int d < int (nDs data) - 7)) \<and>
               NewDeaths_mask (self_d m) ! r ! d =
                 (NewDeaths_mask data ! r ! d \<or>
                  \<not> (d > 30 \<and> \<not> isnan (Deaths_data data ! r ! d))))) \<and>
         (\<exists>m. CMCombined_Final_ICL_init data = Inr m \<and>
            self_d m = data\<lparr>NewCases_mask := NewCases_mask (self_d m),
                            NewDeaths_mask := NewDeaths_mask (self_d m)\<rparr> \<and>
            (\<forall>r < nRs data. \<forall>d < nDs data.
               NewCases_mask (self_d m) ! r ! d =
                 (NewCases_mask data ! r ! d \<or> (30 \<le> d \<and> isnan (Confirmed_data data ! r ! d))) \<and>
               NewDeaths_mask (self_d m) ! r ! d =
                 (NewDeaths_mask data ! r ! d \<or> (30 \<le> d \<and> isnan (Deaths_data data ! r ! d))))) \<and>
         (\<exists>observed_days data'. CMActive_Final_init data = Inr (observed_days, data') \<and>
            data' = data\<lparr>NewCases_mask := NewCases_mask data'\<rparr> \<and>
            (\<forall>r < nRs data. \<forall>d < nDs data.
               NewCases_mask data' ! r ! d =
                 (NewCases_mask data ! r ! d \<or>
                  \<not> (d > 30 \<and> \<not> isnan (Confirmed_data data ! r ! d) \<and> int d < int (nDs data) - 7)))) \<and>
         (\<exists>observed_days. CMDeath_Final_init data = Inr (observed_days, data))"
proof (intro conjI)
  show "\<exists>observed_days. CMDeath_Final_init data = Inr (observed_days, data)"
    by (simp add: CMDeath_Final_init_closed[OF assms])
  show "\<forall>m. CMCombined_Final_DifDelays_init data = Inr m \<longrightarrow>
            (\<forall>r < nRs data. \<forall>d < nDs data.
               NewCases_mask (self_d m) ! r ! d =
                 (NewCases_mask data ! r ! d \<or>
                  \<not> (d > 30 \<and> \<not> isnan (Confirmed_data data ! r ! d) \<and> int d < int (nDs data) - 7)) \<and>
               NewDeaths_mask (self_d m) ! r ! d =
                 (NewDeaths_mask data ! r ! d \<or>
                  \<not> (d > 30 \<and> \<not> isnan (Deaths_data data ! r ! d))))"
    by (auto simp: CMCombined_Final_DifDelays_masks[OF assms] CMCombined_Final_mask_nth[OF assms]
        cases_included_def deaths_included_def)
qed (rule CMCombined_Final_masks[OF assms] CMCombined_Final_ICL_masks[OF assms]
      CMActive_Final_masks[OF assms])+

theorem masks_after_construction_witness:
  "aligned forty_days \<and>
   (\<exists>m. CMCombined_Final_init forty_days = Inr m \<and>
        NewCases_mask forty_days ! 1 ! 5 = False \<and> NewCases_mask (self_d m) ! 1 ! 5 = True \<and>
        NewCases_mask forty_days ! 1 ! 31 = False \<and> NewCases_mask (self_d m) ! 1 ! 31 = False \<and>
        NewDeaths_mask (self_d m) ! 1 ! 39 = False \<and> NewCases_mask (self_d m) ! 1 ! 39 = True) \<and>
   (\<exists>m. CMCombined_Final_DifDelays_init forty_days = Inr m \<and>
        NewCases_mask (self_d m) ! 1 ! 5 = True \<and> NewDeaths_mask (self_d m) ! 1 ! 39 = False) \<and>
   (\<exists>m. CMCombined_Final_ICL_init forty_days = Inr m \<and>
        NewCases_mask (self_d m) ! 1 ! 5 = False \<and> NewCases_mask (self_d m) ! 1 ! 39 = False) \<and>
   (\<exists>observed_days data'. CMActive_Final_init forty_days = Inr (observed_days, data') \<and>
        NewCases_mask data' ! 1 ! 5 = True \<and> NewDeaths_mask data' = NewDeaths_mask forty_days) \<and>
   (\<exists>observed_days. CMDeath_Final_init forty_days = Inr (observed_days, forty_days))"
proof -
  have a: "aligned forty_days" by code_simp
  have n: "1 < nRs forty_days" "5 < nDs forty_days" "31 < nDs forty_days" "39 < nDs forty_days"
    by code_simp+
  have v: "NewCases_mask forty_days ! 1 ! 5 = False" "NewCases_mask forty_days ! 1 ! 31 = False"
    "NewCases_mask forty_days ! 1 ! 39 = False" "NewDeaths_mask forty_days ! 1 ! 39 = False"
    "\<not> isnan (Confirmed_data forty_days ! 1 ! 31)" "\<not> isnan (Deaths_data forty_days ! 1 ! 39)"
    "\<not> isnan (Confirmed_data forty_days ! 1 ! 39)"
    "nDs forty_days = 40"
    by code_simp+
  note t = masks_after_construction[OF a]
  note t1 = t[THEN conjunct1]
  note t3 = t[THEN conjunct2, THEN conjunct2, THEN conjunct1]
  note t4 = t[THEN conjunct2, THEN conjunct2, THEN conjunct2, THEN conjunct1]
  note t5 = t[THEN conjunct2, THEN conjunct2, THEN conjunct2, THEN conjunct2]
  from t1 obtain m where
    m: "CMCombined_Final_init forty_days = Inr m"
    and c: "\<And>r d. r < nRs forty_days \<Longrightarrow> d < nDs forty_days \<Longrightarrow>
               NewCases_mask (self_d m) ! r ! d =
                 (NewCases_mask forty_days ! r ! d \<or>
                  \<not> (d > 30 \<and> \<not> isnan (Confirmed_data forty_days ! r ! d)
                     \<and> int d < int (nDs forty_days) - 7))"
    and dd: "\<And>r d. r < nRs forty_days \<Longrightarrow> d < nDs forty_days \<Longrightarrow>
               NewDeaths_mask (self_d m) ! r ! d =
                 (NewDeaths_mask forty_days ! r ! d \<or>
                  \<not> (d > 30 \<and> \<not> isnan (Deaths_data forty_days ! r ! d)))"
    by blast
  have f1: "NewCases_mask (self_d m) ! 1 ! 5 = True" using c[OF n(1) n(2)] by simp
  have f2: "NewCases_mask (self_d m) ! 1 ! 31 = False" using c[OF n(1) n(3)] v by simp
  have f3: "NewCases_mask (self_d m) ! 1 ! 39 = True" using c[OF n(1) n(4)] v by simp
  have f4: "NewDeaths_mask (self_d m) ! 1 ! 39 = False" using dd[OF n(1) n(4)] v by simp
  have final: "\<exists>m. CMCombined_Final_init forty_days = Inr m \<and>
        NewCases_mask forty_days ! 1 ! 5 = False \<and> NewCases_mask (self_d m) ! 1 ! 5 = True \<and>
        NewCases_mask forty_days ! 1 ! 31 = False \<and> NewCases_mask (self_d m) ! 1 ! 31 = False \<and>
        NewDeaths_mask (self_d m) ! 1 ! 39 = False \<and> NewCases_mask (self_d m) ! 1 ! 39 = True"
    using m v(1,2) f1 f2 f3 f4 by blast
  note t2 = t[THEN conjunct2, THEN conjunct1, rule_format]
  have "case_sum (\<lambda>e. False) (\<lambda>m. True) (CMCombined_Final_DifDelays_init forty_days)"
    by code_simp
  then have "\<exists>m. CMCombined_Final_DifDelays_init forty_days = Inr m"
    by (cases "CMCombined_Final_DifDelays_init forty_days") simp_all
  then obtain md where md: "CMCombined_Final_DifDelays_init forty_days = Inr md" by blast
  have d1: "NewCases_mask (self_d md) ! 1 ! 5 = True"
    using t2[OF md n(1) n(2)] by simp
  have d2: "NewDeaths_mask (self_d md) ! 1 ! 39 = False"
    using t2[OF md n(1) n(4)] v by simp
  have difdelays: "\<exists>m. CMCombined_Final_DifDelays_init forty_days = Inr m \<and>
        NewCases_mask (self_d m) ! 1 ! 5 = True \<and> NewDeaths_mask (self_d m) ! 1 ! 39 = False"
    using md d1 d2 by blast
  from t3 obtain mi where
    mi: "CMCombined_Final_ICL_init forty_days = Inr mi"
    and ci: "\<And>r d. r < nRs forty_days \<Longrightarrow> d < nDs forty_days \<Longrightarrow>
               NewCases_mask (self_d mi) ! r ! d =
                 (NewCases_mask forty_days ! r ! d \<or>
                  (30 \<le> d \<and> isnan (Confirmed_data forty_days ! r ! d)))"
    by blast
  have i1: "NewCases_mask (self_d mi) ! 1 ! 5 = False" using ci[OF n(1) n(2)] v by simp
  have i2: "NewCases_mask (self_d mi) ! 1 ! 39 = False" using ci[OF n(1) n(4)] v by simp
  have icl: "\<exists>m. CMCombined_Final_ICL_init forty_days = Inr m \<and>
        NewCases_mask (self_d m) ! 1 ! 5 = False \<and> NewCases_mask (self_d m) ! 1 ! 39 = False"
    using mi i1 i2 by blast
  from t4 obtain oa da where
    act: "CMActive_Final_init forty_days = Inr (oa, da)"
    and da: "da = forty_days\<lparr>NewCases_mask := NewCases_mask da\<rparr>"
    and ca: "\<And>r d. r < nRs forty_days \<Longrightarrow> d < nDs forty_days \<Longrightarrow>
               NewCases_mask da ! r ! d =
                 (NewCases_mask forty_days ! r ! d \<or>
                  \<not> (d > 30 \<and> \<not> isnan (Confirmed_data forty_days ! r ! d)
                     \<and> int d < int (nDs forty_days) - 7))"
    by blast
  have a1: "NewCases_mask da ! 1 ! 5 = True" using ca[OF n(1) n(2)] by simp
  have "NewDeaths_mask da = NewDeaths_mask (forty_days\<lparr>NewCases_mask := NewCases_mask da\<rparr>)"
    using da by simp
  then have a2: "NewDeaths_mask da = NewDeaths_mask forty_days" by simp
  have active: "\<exists>observed_days data'. CMActive_Final_init forty_days = Inr (observed_days, data') \<and>
        NewCases_mask data' ! 1 ! 5 = True \<and> NewDeaths_mask data' = NewDeaths_mask forty_days"
    using act a1 a2 by blast
  show ?thesis using a final difdelays icl active t5 by blast
qed

text \<open>The claim as stated says the masks are left as they were. On the three-day
  dataset nothing is masked before construction and everything is masked after it.\<close>

theorem masks_unchanged_counterexample:
  "NewCases_mask three_days = replicate 2 (replicate 3 False) \<and>
   NewDeaths_mask three_days = replicate 2 (replicate 3 False) \<and>
   map_sum id (NewCases_mask \<circ> self_d) (CMCombined_Final_init three_days)
     = Inr (replicate 2 (replicate 3 True)) \<and>
   map_sum id (NewDeaths_mask \<circ> self_d) (CMCombined_Final_init three_days)
     = Inr (replicate 2 (replicate 3 True))"
  by code_simp

section \<open>A region without usable deaths (C6)\<close>

lemma observed_indices_in_range:
  "list_all (\<lambda>i. i < n_regions * n_days) (observed_indices inc n_regions n_days)"
proof -
  have "i < n_regions * n_days" if "i \<in> set (observed_indices inc n_regions n_days)" for i
    using observed_indices_mem[OF that] flat_index_less by blast
  then show ?thesis by (simp add: list_all_iff)
qed

lemma select_observed_aligned:
  assumes "shape2 a n_regions n_days"
  shows "select_observed a (n_regions * n_days) (observed_indices inc n_regions n_days) disp =
         (if observed_indices inc n_regions n_days = [] then Inl IndexError
          else Inr \<lparr> mu_index = observed_indices inc n_regions n_days, alpha = disp,
                     observed = map (\<lambda>i. concat a ! i) (observed_indices inc n_regions n_days) \<rparr>)"
  using observed_indices_in_range[of n_regions n_days inc]
  by (simp add: select_observed_def reshape_flat_def index_with_def
      shape2_concat_length[OF assms])

lemma CMCombined_Final_learned_build:
  assumes "aligned data"
  shows "CMCombined_Final_build data None None =
         (if observed_indices (cases_included data) (nRs data) (nDs data) = [] \<or>
             observed_indices (deaths_included data) (nRs data) (nDs data) = []
          then Inl IndexError
          else Inr (\<lparr> mu_index = observed_indices (cases_included data) (nRs data) (nDs data),
                       alpha = Learned_Phi,
                       observed = map (\<lambda>i. concat (NewCases_data data) ! i)
                                    (observed_indices (cases_included data) (nRs data) (nDs data)) \<rparr>,
                    \<lparr> mu_index = observed_indices (deaths_included data) (nRs data) (nDs data),
                       alpha = Learned_Phi,
                       observed = map (\<lambda>i. concat (NewDeaths_data data) ! i)
                                    (observed_indices (deaths_included data) (nRs data) (nDs data)) \<rparr>))"
proof -
  have c: "shape2 (NewCases_data data) (nRs data) (nDs data)"
    and d: "shape2 (NewDeaths_data data) (nRs data) (nDs data)"
    using assms by (simp_all add: aligned_def)
  have n: "nDs (data\<lparr>NewCases_mask := x, NewDeaths_mask := y\<rparr>) = nDs data" for x y
    by (simp add: nDs_def)
  show ?thesis
    using select_observed_aligned[OF c, of "cases_included data" Learned_Phi]
      select_observed_aligned[OF d, of "deaths_included data" Learned_Phi]
    by (auto simp: CMCombined_Final_build_def CMCombined_Final_build_model_def
        CMCombined_Final_init_closed[OF assms] CMCombined_Final_ObservedCases_def
        CMCombined_Final_ObservedDeaths_def n split: if_splits)
qed

text \<open>A build needs an observed cell in each channel: where one of the two index lists
  is empty the build stops with \<^verbatim>\<open>IndexError\<close> (\<open>CMCombined_Final_learned_build\<close>). That
  is so for every dataset of at most 38 days, which has no observed case.\<close>

lemma short_dataset_never_builds:
  assumes "aligned data" "nDs data \<le> 38"
  shows "CMCombined_Final_build data None None = Inl IndexError"
proof -
  have "\<not> cases_included data r d" for r d
    using assms(2) by (auto simp: cases_included_def)
  then have "observed_indices (cases_included data) (nRs data) (nDs data) = []"
    by (simp add: observed_indices_def)
  then show ?thesis by (simp add: CMCombined_Final_learned_build[OF assms(1)])
qed

text \<open>
  C6, as amended. The deaths loop tests the upstream mask and the cumulative count
  \<^verbatim>\<open>Deaths\<close>, never the daily values. On a rectangular dataset, a region each of whose
  days is masked upstream or has a NaN cumulative count (so: a region entirely masked, or
  with \<^verbatim>\<open>Deaths\<close> entirely NaN) contributes no index to \<^verbatim>\<open>all_observed_deaths\<close>, and
  the constructor returns. If the dataset has an observed cell in each channel, the build
  with learned dispersions then declares both likelihoods without an exception, the death
  likelihood over the values of the flattened \<^verbatim>\<open>NewDeaths\<close> at the indices of the other
  regions.
\<close>

theorem region_without_deaths:
  assumes "aligned data" and "r < nRs data"
    and "\<forall>d < nDs data. NewDeaths_mask data ! r ! d \<or> isnan (Deaths_data data ! r ! d)"
  shows "\<exists>m. CMCombined_Final_init data = Inr m \<and>
            (\<forall>i \<in> set (all_observed_deaths m). i div nDs data \<noteq> r) \<and>
            (all_observed_active m \<noteq> [] \<and> all_observed_deaths m \<noteq> [] \<longrightarrow>
               CMCombined_Final_build data None None =
                 Inr (\<lparr> mu_index = all_observed_active m, alpha = Learned_Phi,
                        observed = map (\<lambda>i. concat (NewCases_data data) ! i)
                                       (all_observed_active m) \<rparr>,
                      \<lparr> mu_index = all_observed_deaths m, alpha = Learned_Phi,
                        observed = map (\<lambda>i. concat (NewDeaths_data data) ! i)
                                       (all_observed_deaths m) \<rparr>))"
proof -
  let ?idx = "observed_indices (deaths_included data) (nRs data) (nDs data)"
  have none: "i div nDs data \<noteq> r" if "i \<in> set ?idx" for i
  proof -
    from observed_indices_mem[OF that] obtain r' d' where
      *: "r' < nRs data" "d' < nDs data" "i = r' * nDs data + d'" "deaths_included data r' d'"
      by blast
    have "i div nDs data = r'" using *(2,3) by (simp add: flat_index_div)
    moreover have "\<not> deaths_included data r d'"
      using assms(3) *(2) by (auto simp: deaths_included_def)
    ultimately show ?thesis using *(4) by auto
  qed
  show ?thesis
    using none
    by (simp add: CMCombined_Final_init_closed[OF assms(1)]
        CMCombined_Final_learned_build[OF assms(1)])
qed

theorem region_without_deaths_witness:
  "aligned no_deaths_region \<and> 0 < nRs no_deaths_region \<and>
   list_all (\<lambda>d. NewDeaths_mask no_deaths_region ! 0 ! d \<or> isnan (Deaths_data no_deaths_region ! 0 ! d))
     [0..<nDs no_deaths_region] \<and>
   map_sum id all_observed_active (CMCombined_Final_init no_deaths_region) = Inr [31, 32, 71, 72] \<and>
   map_sum id all_observed_deaths (CMCombined_Final_init no_deaths_region) = Inr [71..<80] \<and>
   map_sum id (observed \<circ> snd) (CMCombined_Final_build no_deaths_region None None)
     = Inr (replicate 9 (Val 2)) \<and>
   (\<exists>m. CMCombined_Final_init no_deaths_region = Inr m \<and>
        list_all (\<lambda>i. i div nDs no_deaths_region \<noteq> 0) (all_observed_deaths m))"
proof -
  have a: "aligned no_deaths_region" by code_simp
  have r: "0 < nRs no_deaths_region" by code_simp
  have h: "list_all (\<lambda>d. NewDeaths_mask no_deaths_region ! 0 ! d \<or> isnan (Deaths_data no_deaths_region ! 0 ! d))
     [0..<nDs no_deaths_region]" by code_simp
  then have h': "\<forall>d < nDs no_deaths_region.
      NewDeaths_mask no_deaths_region ! 0 ! d \<or> isnan (Deaths_data no_deaths_region ! 0 ! d)"
    by (simp add: list_all_iff)
  have e: "map_sum id all_observed_active (CMCombined_Final_init no_deaths_region) = Inr [31, 32, 71, 72]"
    "map_sum id all_observed_deaths (CMCombined_Final_init no_deaths_region) = Inr [71..<80]"
    by code_simp+
  have b: "map_sum id (observed \<circ> snd) (CMCombined_Final_build no_deaths_region None None)
     = Inr (replicate 9 (Val 2))"
    by code_simp
  show ?thesis
    using a r h e b region_without_deaths[OF a r h'] by (auto simp: list_all_iff)
qed

text \<open>The claim as stated speaks of the daily series \<^verbatim>\<open>NewDeaths\<close> being NaN. In the
  40-day dataset the daily deaths of region 0 are all NaN, unmasked, with known cumulative
  counts: the region contributes the nine indices 31 to 39.\<close>

theorem nan_new_deaths_counterexample:
  "NewDeaths_data forty_days ! 0 = replicate 40 NaN \<and>
   map_sum id all_observed_deaths (CMCombined_Final_init forty_days)
     = Inr ([31..<40] @ [71..<80])"
  by code_simp

section \<open>The two region subsets of the dual-delay variant (C4)\<close>

lemma short_long_disjoint:
  "set (short_regions active testing_indx) \<inter> set (long_regions active testing_indx) = {}"
  by (auto simp: short_regions_def long_regions_def)

lemma short_long_cover:
  "r < length active \<Longrightarrow>
   (r \<in> set (short_regions active testing_indx) \<union> set (long_regions active testing_indx)
      \<longleftrightarrow> testing_sums active testing_indx ! r \<noteq> 1)"
  by (auto simp: short_regions_def long_regions_def)

text \<open>
  C4, on the code. The two lists never overlap (\<open>short_long_disjoint\<close>), but a region whose
  summed activity is exactly 1 is in neither (\<open>short_long_cover\<close>). In the three-day
  dataset symptomatic testing is active on one day in region 0 and on three days in
  region 1: \<^verbatim>\<open>short_rs\<close> is \<open>[1]\<close>, \<^verbatim>\<open>long_rs\<close> is empty, and region 0 is left out.
\<close>

theorem short_long_leave_out_region:
  "testing_sums (ActiveCMs three_days) 1 = [1, 3] \<and>
   map_sum id short_rs (CMCombined_Final_DifDelays_init three_days) = Inr [1] \<and>
   map_sum id long_rs (CMCombined_Final_DifDelays_init three_days) = Inr [] \<and>
   nRs three_days = 2"
  by code_simp

section \<open>A fixed death dispersion (C8)\<close>

lemma shape2_drop_columns:
  "shape2 a n m \<Longrightarrow> shape2 (drop_columns k a) n (m - k)"
  by (auto simp: shape2_def drop_columns_def list_all_iff)

lemma fixed_deaths_noise_never_builds:
  assumes "aligned data"
  shows "\<exists>e. CMCombined_Final_build data conf_noise (Some noise) = Inl e"
proof (cases "nRs data * nDs data = 0")
  case True
  then have "observed_indices (deaths_included data) (nRs data) (nDs data) = []"
    by (auto simp: observed_indices_def)
  then show ?thesis
    by (simp add: CMCombined_Final_build_def CMCombined_Final_build_model_def
        CMCombined_Final_init_closed[OF assms]
        CMCombined_Final_ObservedDeaths_def select_observed_def index_with_def
        split: sum.splits)
next
  case False
  have "shape2 (NewDeaths_data data) (nRs data) (nDs data)"
    using assms by (simp add: aligned_def)
  then have "length (concat (drop_columns 30 (NewDeaths_data data))) = nRs data * (nDs data - 30)"
    by (intro shape2_concat_length shape2_drop_columns)
  moreover have "nRs data * (nDs data - 30) \<noteq> nRs data * nDs data"
    using False by auto
  ultimately have "reshape_flat (drop_columns 30 (NewDeaths_data data)) (nRs data * nDs data)
      = Inl ValueError"
    by (simp add: reshape_flat_def)
  then show ?thesis
    by (simp add: CMCombined_Final_build_def CMCombined_Final_build_model_def
        CMCombined_Final_init_closed[OF assms]
        CMCombined_Final_ObservedDeaths_def select_observed_def nDs_def
        split: sum.splits)
qed

lemma DifDelays_fixed_same_observed:
  "map_sum id observed (CMCombined_Final_DifDelays_ObservedDeaths m (Some noise)) =
   map_sum id observed (CMCombined_Final_DifDelays_ObservedDeaths m None)"
  by (simp add: CMCombined_Final_DifDelays_ObservedDeaths_def select_observed_def
      split: sum.splits)

text \<open>
  C8, on the code. With a number for \<^verbatim>\<open>deaths_noise\<close>, \<^verbatim>\<open>CMCombined_Final.build_model\<close>
  reshapes \<^verbatim>\<open>NewDeaths.data[:, 30:]\<close> to \<^verbatim>\<open>nORs * nDs\<close> cells, which it does not have:
  on the 40-day dataset the cases likelihood is declared and then the build stops with
  \<^verbatim>\<open>ValueError\<close>, where the learned branch declares the death likelihood over 18 values.
  No rectangular dataset gets through (\<open>fixed_deaths_noise_never_builds\<close>); the sibling
  variants reshape the whole array in both branches (\<open>DifDelays_fixed_same_observed\<close>).
\<close>

theorem fixed_deaths_noise_raises:
  "CMCombined_Final_build forty_days None (Some 5) = Inl ValueError \<and>
   map_sum id (observed \<circ> fst) (CMCombined_Final_build forty_days None None)
     = Inr (replicate 4 (Val 5)) \<and>
   map_sum id (observed \<circ> snd) (CMCombined_Final_build forty_days None None)
     = Inr (replicate 9 NaN @ replicate 9 (Val 2))"
  by code_simp

section \<open>The testing NPI after the dual-delay constructor (C10)\<close>










section \<open>The serial-interval transform (C2)\<close>

lemma default_serial_interval_moments:
  "si_alpha default_serial_interval_mean default_serial_interval_sigma = Some SI_ALPHA"
  "si_beta default_serial_interval_mean default_serial_interval_sigma = Some SI_BETA"
  by (simp_all add: si_alpha_def si_beta_def default_serial_interval_mean_def
      default_serial_interval_sigma_def SI_ALPHA_def SI_BETA_def power2_eq_square)

text \<open>
  C2. For a serial interval of non-zero mean and standard deviation (its variance is the
  square \<^verbatim>\<open>serial_interval_sigma ** 2\<close>), \<open>si_alpha\<close> is mean squared over variance,
  \<open>si_beta\<close> is mean over variance, and every entry of \<^verbatim>\<open>ExpectedGrowth\<close> is
  \<open>si_beta * (exp (ExpectedLogR / si_alpha) - 1)\<close>; where \<^verbatim>\<open>ExpectedLogR\<close> is 0 the
  growth is 0.
\<close>

theorem serial_interval_transform:
  assumes "serial_interval_mean \<noteq> 0" and "serial_interval_sigma \<noteq> 0"
    and "r < length ExpectedLogR" and "day < length (ExpectedLogR ! r)"
  shows "si_alpha serial_interval_mean serial_interval_sigma
           = Some (serial_interval_mean ^ 2 / serial_interval_sigma ^ 2) \<and>
         si_beta serial_interval_mean serial_interval_sigma
           = Some (serial_interval_mean / serial_interval_sigma ^ 2) \<and>
         (\<exists>growth. ExpectedGrowth serial_interval_mean serial_interval_sigma ExpectedLogR
                      = Some growth \<and>
            growth ! r ! day =
              (serial_interval_mean / serial_interval_sigma ^ 2) *
              (exp (ExpectedLogR ! r ! day / (serial_interval_mean ^ 2 / serial_interval_sigma ^ 2)) - 1) \<and>
            (ExpectedLogR ! r ! day = 0 \<longrightarrow> growth ! r ! day = 0))"
  using assms by (simp add: ExpectedGrowth_def si_alpha_def si_beta_def)

theorem serial_interval_transform_witness:
  "default_serial_interval_mean \<noteq> 0 \<and> default_serial_interval_sigma \<noteq> 0 \<and>
   (\<exists>growth. ExpectedGrowth default_serial_interval_mean default_serial_interval_sigma [[1, 0]]
                = Some growth \<and>
      growth ! 0 ! 0 = SI_BETA * (exp (1 / SI_ALPHA) - 1) \<and> growth ! 0 ! 1 = 0)"
proof -
  have m: "default_serial_interval_mean \<noteq> 0"
    by (simp add: default_serial_interval_mean_def SI_ALPHA_def SI_BETA_def)
  have s: "default_serial_interval_sigma \<noteq> 0"
    by (simp add: default_serial_interval_sigma_def SI_ALPHA_def SI_BETA_def)
  have a: "default_serial_interval_mean ^ 2 / default_serial_interval_sigma ^ 2 = SI_ALPHA"
    and b: "default_serial_interval_mean / default_serial_interval_sigma ^ 2 = SI_BETA"
    using default_serial_interval_moments m s by (simp_all add: si_alpha_def si_beta_def)
  have "\<exists>growth. ExpectedGrowth default_serial_interval_mean default_serial_interval_sigma [[1, 0]]
                = Some growth \<and> growth ! 0 ! 0 = SI_BETA * (exp (1 / SI_ALPHA) - 1)"
    using serial_interval_transform[OF m s, of 0 "[[1, 0]]" 0] by (simp add: a b)
  moreover have "\<exists>growth. ExpectedGrowth default_serial_interval_mean default_serial_interval_sigma [[1, 0]]
                = Some growth \<and> growth ! 0 ! 1 = 0"
    using serial_interval_transform[OF m s, of 0 "[[1, 0]]" 1] by simp
  ultimately show ?thesis using m s by auto
qed

section \<open>\<^verbatim>\<open>CMReduction\<close> (C5)\<close>

text \<open>
  C5, as amended. In \<^verbatim>\<open>CMCombined_Final\<close> (and in every other variant that declares
  \<^verbatim>\<open>CM_Alpha\<close>: all of them carry the line \<^verbatim>\<open>T.exp((-1.0) * self.CM_Alpha)\<close>), whenever
  the head of the build goes through, \<^verbatim>\<open>CMReduction\<close> is \<open>exp (- CM_Alpha)\<close> entry by
  entry, and an entry of \<^verbatim>\<open>CM_Alpha\<close> that is 0 gives 1. In \<^verbatim>\<open>CMCombined_Additive\<close>,
  \<^verbatim>\<open>CMReduction\<close> is \<^verbatim>\<open>CM_Beta = AllBeta[1:]\<close>.
\<close>

theorem CMReduction_is_exp:
  assumes "CMCombined_Final_effects cm_prior free = Inr vars"
  shows "(\<exists>CM_Alpha. map_of vars ''CM_Alpha'' = Some CM_Alpha \<and>
            length CM_Alpha = length free \<and>
            map_of vars ''CMReduction'' = Some (map (\<lambda>a. exp (- a)) CM_Alpha) \<and>
            (\<forall>i < length CM_Alpha. CM_Alpha ! i = 0 \<longrightarrow> map (\<lambda>a. exp (- a)) CM_Alpha ! i = 1)) \<and>
         map_of (CMCombined_Additive_effects AllBeta) ''CMReduction'' = Some (drop 1 AllBeta) \<and>
         map_of (CMCombined_Additive_effects AllBeta) ''CM_Beta'' = Some (drop 1 AllBeta)"
  using assms
  by (auto simp: CMCombined_Final_effects_def CMCombined_Additive_effects_def Let_def
      split: if_splits)

theorem CMReduction_is_exp_witness:
  "CMCombined_Final_effects ''normal'' [0, 1 / 5]
     = Inr [(''CM_Alpha'', [0, 1 / 5]), (''CMReduction'', [1, exp (- (1 / 5))])] \<and>
   map_of [(''CM_Alpha'', [0, 1 / 5 :: real]), (''CMReduction'', [1, exp (- (1 / 5))])] ''CMReduction''
     = Some (map (\<lambda>a. exp (- a)) [0, 1 / 5])"
proof -
  have e: "CMCombined_Final_effects ''normal'' [0, 1 / 5]
     = Inr [(''CM_Alpha'', [0, 1 / 5]), (''CMReduction'', [1, exp (- (1 / 5))])]"
    by (simp add: CMCombined_Final_effects_def)
  from CMReduction_is_exp[OF e] show ?thesis using e by simp
qed

text \<open>The claim as stated covers every variant. A draw of \<^verbatim>\<open>CMCombined_Additive\<close> has no
  \<^verbatim>\<open>CM_Alpha\<close>, and its \<^verbatim>\<open>CMReduction\<close> is the tail of \<^verbatim>\<open>AllBeta\<close>.\<close>

theorem Additive_CMReduction_counterexample:
  "map_of (CMCombined_Additive_effects [1 / 4, 3 / 4]) ''CM_Alpha'' = None \<and>
   map_of (CMCombined_Additive_effects [1 / 4, 3 / 4]) ''CMReduction'' = Some [3 / 4]"
  by (simp add: CMCombined_Additive_effects_def)

section \<open>No clamp on the infection curve (C7)\<close>







text \<open>At the other end the curve is not even positive: an initial log-size of -1100
  gives 0.0.\<close>

lemma Infected_underflow_example: "Infected [- 1100] [[0]] = [[Finite 0]]"
proof -
  have "(2::real) ^ 1100 \<le> exp 1 ^ 1100"
    using exp_ge_add_one_self[of 1] by (intro power_mono) simp_all
  moreover have "exp 1 ^ 1100 = exp (1100::real)"
    using exp_of_nat_mult[of 1100 "1::real"] by simp
  moreover have "(2::real) ^ 1075 \<le> 2 ^ 1100" by simp
  ultimately have big: "(2::real) ^ 1075 \<le> exp 1100" by linarith
  have "exp (- 1100 :: real) = 1 / exp 1100" by (simp add: exp_minus divide_inverse)
  also have "\<dots> \<le> 1 / 2 ^ 1075" using big by (intro divide_left_mono) simp_all
  finally have small: "exp (- 1100 :: real) \<le> 1 / 2 ^ 1075" .
  have "(1::real) / 2 ^ 1075 < 2 ^ 1024 - 2 ^ 970" by simp
  then have "\<not> 2 ^ 1024 - 2 ^ 970 \<le> exp (- 1100 :: real)" using small by linarith
  then show ?thesis using small by (simp add: Infected_def cumsum_def float_exp_def)
qed




section \<open>The renewal recursion of the ICL variant (C3)\<close>

lemma renewal_step_nth:
  "c < 2 \<Longrightarrow> r < n_regions \<Longrightarrow>
   renewal_step si R n_regions day infected ! c ! r = renewal_row si (R ! c ! r) day (infected ! c ! r)"
  by (simp add: renewal_step_def)

lemma renewal_loop_row:
  assumes "c < 2" "r < n_regions"
  shows "foldl (\<lambda>infected day. renewal_step si R n_regions day infected) infected days ! c ! r =
         foldl (\<lambda>row day. renewal_row si (R ! c ! r) day row) (infected ! c ! r) days"
  by (induction days arbitrary: infected) (simp_all add: renewal_step_nth[OF assms])

lemma ICL_seed_nth:
  "c < 2 \<Longrightarrow> r < n_regions \<Longrightarrow>
   ICL_seed si InitialSize_log n_regions n_obs_days ! c ! r =
   seed_row si (exp (InitialSize_log ! c ! r)) n_obs_days"
  by (simp add: ICL_seed_def seed_row_def Let_def)

lemma ICL_infected_row:
  assumes "c < 2" "r < n_regions"
  shows "ICL_infected si InitialSize_log LogR n_regions n_obs_days ! c ! r =
         renewal_run si (map (map (map exp)) LogR ! c ! r) n_obs_days
           (seed_row si (exp (InitialSize_log ! c ! r)) n_obs_days)"
  by (simp add: ICL_infected_def renewal_run_def renewal_loop_row[OF assms] ICL_seed_nth[OF assms])

lemma ICL_infected_length:
  "length (ICL_infected si InitialSize_log LogR n_regions n_obs_days) = 2"
proof -
  have "length (foldl (\<lambda>infected day. renewal_step si R n_regions day infected) infected days) = 2"
    if "length infected = 2" for R infected days
    using that by (induction days arbitrary: infected) (simp_all add: renewal_step_def)
  then show ?thesis by (simp add: ICL_infected_def ICL_seed_def Let_def)
qed

lemma ICL_infected_length_nth:
  assumes "c < 2"
  shows "length (ICL_infected si InitialSize_log LogR n_regions n_obs_days ! c) = n_regions"
proof -
  have "length infected = 2 \<and> length (infected ! c) = n_regions \<Longrightarrow>
        length (foldl (\<lambda>infected day. renewal_step si R n_regions day infected) infected days) = 2 \<and>
        length (foldl (\<lambda>infected day. renewal_step si R n_regions day infected) infected days ! c)
          = n_regions"
    for R infected days
    using assms by (induction days arbitrary: infected) (simp_all add: renewal_step_def)
  then show ?thesis using assms by (simp add: ICL_infected_def ICL_seed_def Let_def)
qed

lemma renewal_row_length: "length (renewal_row si R_row day row) = length row"
  by (simp add: renewal_row_def)

lemma renewal_run_length: "length (renewal_run si R_row n row) = length row"
  by (induction n) (simp_all add: renewal_run_def renewal_row_length)

lemma renewal_run_Suc:
  "renewal_run si R_row (Suc n) row = renewal_row si R_row n (renewal_run si R_row n row)"
  by (simp add: renewal_run_def)

lemma renewal_row_other: "p \<noteq> day + length si \<Longrightarrow> renewal_row si R_row day row ! p = row ! p"
  by (simp add: renewal_row_def)

lemma renewal_run_stable:
  assumes "k \<le> m" "p < k + length si"
  shows "renewal_run si R_row m row ! p = renewal_run si R_row k row ! p"
  using assms
proof (induction m)
  case 0
  then show ?case by simp
next
  case (Suc m)
  show ?case
  proof (cases "k = Suc m")
    case True
    then show ?thesis by simp
  next
    case False
    then have "k \<le> m" using Suc.prems by simp
    moreover have "p \<noteq> m + length si" using \<open>k \<le> m\<close> Suc.prems by simp
    ultimately show ?thesis
      using Suc by (simp add: renewal_run_Suc renewal_row_other)
  qed
qed

lemma renewal_run_cong:
  assumes "\<And>j. j < n \<Longrightarrow> R_row ! j = R_row' ! j"
  shows "renewal_run si R_row n row = renewal_run si R_row' n row"
  using assms
proof (induction n)
  case 0
  then show ?case by (simp add: renewal_run_def)
next
  case (Suc n)
  then have "renewal_run si R_row n row = renewal_run si R_row' n row" by simp
  moreover have "R_row ! n = R_row' ! n" using Suc.prems by simp
  ultimately show ?case by (simp add: renewal_run_Suc renewal_row_def)
qed

lemma renewal_sum:
  assumes "day + length si \<le> length row"
  shows "sum_list (map (\<lambda>(x, s). R * x * s) (zip (take (length si) (drop day row)) (rev si))) =
         (R::real) * (\<Sum>k = 1..length si. row ! (day + length si - k) * si ! (k - 1))"
proof -
  let ?n = "length si"
  let ?zs = "map (\<lambda>(x, s). R * x * s) (zip (take ?n (drop day row)) (rev si))"
  have len: "length ?zs = ?n" using assms by simp
  have nth: "?zs ! i = R * (row ! (day + i) * si ! (?n - Suc i))" if "i < ?n" for i
    using that assms by (simp add: rev_nth mult.assoc)
  have "sum_list ?zs = (\<Sum>i = 0..<?n. ?zs ! i)"
    using len by (simp add: sum_list_sum_nth)
  also have "\<dots> = (\<Sum>i = 0..<?n. R * (row ! (day + i) * si ! (?n - Suc i)))"
    by (intro sum.cong) (simp_all add: nth del: nth_map nth_zip)
  also have "\<dots> = R * (\<Sum>i = 0..<?n. row ! (day + i) * si ! (?n - Suc i))"
    by (simp add: sum_distrib_left)
  also have "(\<Sum>i = 0..<?n. row ! (day + i) * si ! (?n - Suc i)) =
             (\<Sum>k = 1..?n. row ! (day + ?n - k) * si ! (k - 1))"
    by (rule sum.reindex_bij_witness[of _ "\<lambda>k. ?n - k" "\<lambda>i. ?n - i"]) auto
  finally show ?thesis .
qed

lemma seed_row_length:
  "conv_padding \<le> length si \<Longrightarrow> length (seed_row si seed n) = n + length si"
  by (simp add: seed_row_def set_slice_def)

lemma seed_row_nth:
  assumes "conv_padding \<le> length si" "p < length si"
  shows "seed_row si seed n ! p = (if length si - conv_padding \<le> p then seed else 0)"
  using assms by (auto simp: seed_row_def set_slice_def nth_append)

lemma renewal_run_recursion:
  assumes pad: "conv_padding \<le> length si" and day: "day < n"
  shows "drop (length si) (renewal_run si R_row n (seed_row si seed n)) ! day =
         R_row ! day *
         (\<Sum>k = 1..length si.
            ICL_past (drop (length si) (renewal_run si R_row n (seed_row si seed n))) seed
              (int day - int k) * si ! (k - 1))"
proof -
  let ?fs = "length si"
  let ?row0 = "seed_row si seed n"
  let ?final = "renewal_run si R_row n ?row0"
  let ?before = "renewal_run si R_row day ?row0"
  have len0: "length ?row0 = n + ?fs" using pad by (rule seed_row_length)
  have lenf: "length ?final = n + ?fs" and lenb: "length ?before = n + ?fs"
    by (simp_all add: renewal_run_length len0)
  have curve: "drop ?fs ?final ! j = ?final ! (?fs + j)" for j
    using lenf by simp
  have early: "?final ! p = ?before ! p" if "p < day + ?fs" for p
    using renewal_run_stable[of day n p si R_row ?row0] day that by simp
  have start: "?final ! p = ?row0 ! p" if "p < ?fs" for p
    using renewal_run_stable[of 0 n p si R_row ?row0] that by (simp add: renewal_run_def)
  have "?final ! (day + ?fs) = renewal_run si R_row (Suc day) ?row0 ! (day + ?fs)"
    using renewal_run_stable[of "Suc day" n "day + ?fs" si R_row ?row0] day by simp
  also have "\<dots> = sum_list (map (\<lambda>(x, s). R_row ! day * x * s)
                                 (zip (take ?fs (drop day ?before)) (rev si)))"
    using day lenb by (simp add: renewal_run_Suc renewal_row_def)
  also have "\<dots> = R_row ! day * (\<Sum>k = 1..?fs. ?before ! (day + ?fs - k) * si ! (k - 1))"
    using day lenb by (intro renewal_sum) simp
  also have "(\<Sum>k = 1..?fs. ?before ! (day + ?fs - k) * si ! (k - 1)) =
             (\<Sum>k = 1..?fs. ICL_past (drop ?fs ?final) seed (int day - int k) * si ! (k - 1))"
  proof (intro sum.cong refl)
    fix k assume "k \<in> {1..?fs}"
    then have k: "1 \<le> k" "k \<le> ?fs" by simp_all
    have "?before ! (day + ?fs - k) = ?final ! (day + ?fs - k)"
      using k by (intro early[symmetric]) simp
    also have "\<dots> = ICL_past (drop ?fs ?final) seed (int day - int k)"
    proof (cases "k \<le> day")
      case True
      then have "nat (int day - int k) = day - k" by simp
      moreover have "day + ?fs - k = ?fs + (day - k)" using True by simp
      ultimately show ?thesis using True by (simp add: ICL_past_def curve)
    next
      case False
      then have p: "day + ?fs - k < ?fs" using k by simp
      have "?final ! (day + ?fs - k) = (if ?fs - conv_padding \<le> day + ?fs - k then seed else 0)"
        using start[OF p] seed_row_nth[OF pad p] by simp
      moreover have "(?fs - conv_padding \<le> day + ?fs - k) = (- int conv_padding \<le> int day - int k)"
        using pad k False by auto
      ultimately show ?thesis using False by (simp add: ICL_past_def)
    qed
    finally show "?before ! (day + ?fs - k) * si ! (k - 1) =
                  ICL_past (drop ?fs ?final) seed (int day - int k) * si ! (k - 1)"
      by simp
  qed
  finally show ?thesis by (simp add: curve add.commute)
qed

lemma SI_length: "length SI = 30"
  by (simp add: SI_def)

lemma shape3_nth:
  assumes "shape3 a 2 m k" "c < 2" "r < m"
  shows "c < length a" "r < length (a ! c)" "length (a ! c ! r) = k"
  using assms by (auto simp: shape3_def shape2_def list_all_length)

lemma exp_LogR_nth:
  assumes "shape3 LogR 2 m k" "c < 2" "r < m" "j < k"
  shows "map (map (map exp)) LogR ! c ! r ! j = exp (LogR ! c ! r ! j)"
  using shape3_nth[OF assms(1-3)] assms(4) by simp

lemma ICL_curve_row:
  assumes "c < 2" "r < n_regions"
  shows "ICL_Infected_curves InitialSize_log LogR n_regions n_obs_days ! c ! r =
         drop (length SI)
           (renewal_run SI (map (map (map exp)) LogR ! c ! r) n_obs_days
              (seed_row SI (exp (InitialSize_log ! c ! r)) n_obs_days))"
  using assms
  by (simp add: ICL_Infected_curves_def ICL_infected_length ICL_infected_length_nth
      ICL_infected_row)

lemma ICL_curve_causal:
  assumes "shape3 LogR 2 n_regions n_obs_days" "shape3 LogR' 2 n_regions n_obs_days"
    and "c < 2" "r < n_regions" "day < n_obs_days"
    and same: "\<And>j. j \<le> day \<Longrightarrow> LogR' ! c ! r ! j = LogR ! c ! r ! j"
  shows "ICL_Infected_curves InitialSize_log LogR' n_regions n_obs_days ! c ! r ! day =
         ICL_Infected_curves InitialSize_log LogR n_regions n_obs_days ! c ! r ! day"
proof -
  let ?seed = "seed_row SI (exp (InitialSize_log ! c ! r)) n_obs_days"
  let ?R = "map (map (map exp)) LogR ! c ! r" and ?R' = "map (map (map exp)) LogR' ! c ! r"
  have len: "length (renewal_run SI R_row n_obs_days ?seed) = n_obs_days + length SI" for R_row
    by (simp add: renewal_run_length seed_row_length SI_length conv_padding_def)
  have at: "drop (length SI) (renewal_run SI R_row n_obs_days ?seed) ! day =
            renewal_run SI R_row (Suc day) ?seed ! (length SI + day)" for R_row
    using renewal_run_stable[of "Suc day" n_obs_days "length SI + day" SI R_row ?seed] assms(5) len
    by simp
  have "?R' ! j = ?R ! j" if "j < Suc day" for j
    using that assms(5) same[of j] exp_LogR_nth[OF assms(1,3,4), of j]
      exp_LogR_nth[OF assms(2,3,4), of j]
    by simp
  then have "renewal_run SI ?R' (Suc day) ?seed = renewal_run SI ?R (Suc day) ?seed"
    by (rule renewal_run_cong)
  then show ?thesis
    by (simp add: ICL_curve_row[OF assms(3,4)] at)
qed

lemma seed_sum:
  "(\<Sum>k = 1..length SI. ICL_past cv seed (int 0 - int k) * SI ! (k - 1)) = seed * sum_list (take 7 SI)"
proof -
  have past: "ICL_past cv seed (int 0 - int k) * SI ! (k - 1) =
              (if k \<le> 7 then seed * SI ! (k - 1) else 0)" if "k \<in> {1..30}" for k
    using that by (auto simp: ICL_past_def conv_padding_def)
  have "(\<Sum>k = 1..length SI. ICL_past cv seed (int 0 - int k) * SI ! (k - 1)) =
        (\<Sum>k = 1..30. if k \<le> 7 then seed * SI ! (k - 1) else 0)"
    unfolding SI_length by (intro sum.cong refl past)
  also have "\<dots> = (\<Sum>k \<in> {k \<in> {1..30}. k \<le> 7}. seed * SI ! (k - 1))"
    by (rule sum.inter_filter[symmetric]) simp
  also have "{k \<in> {1..30::nat}. k \<le> 7} = {1..7}" by auto
  also have "(\<Sum>k = 1..7. seed * SI ! (k - 1)) = seed * (\<Sum>k = 1..7. SI ! (k - 1))"
    by (simp add: sum_distrib_left)
  also have "(\<Sum>k = 1..7. SI ! (k - 1)) = sum_list (take 7 SI)"
    by (simp add: SI_def sum.atLeast_Suc_atMost numeral_eq_Suc)
  finally show ?thesis .
qed

text \<open>
  C3. In \<^verbatim>\<open>CMCombined_Final_ICL\<close>, for each channel \<open>c\<close>, region \<open>r\<close> and observed day,
  the curve cut out of the loop's result satisfies
  \<open>Infected[c, r, day] = exp (LogR[c, r, day]) * (\<Sum>k = 1..|SI|. Infected[c, r, day - k] * SI[k])\<close>,
  where a day before day 0 reads \<open>exp (InitialSize_log[c, r])\<close> on the seven days just
  before day 0 and zero earlier (\<open>ICL_past\<close>; \<open>SI[k]\<close> is \<open>SI ! (k - 1)\<close>). Hence the
  value at a day is the same for any two \<^verbatim>\<open>LogR\<close> that agree up to that day.
\<close>

theorem ICL_renewal_recursion:
  assumes "shape3 LogR 2 n_regions n_obs_days" and "shape2 InitialSize_log 2 n_regions"
    and "c < 2" and "r < n_regions" and "day < n_obs_days"
  shows "ICL_Infected_curves InitialSize_log LogR n_regions n_obs_days ! c ! r ! day =
           exp (LogR ! c ! r ! day) *
           (\<Sum>k = 1..length SI.
              ICL_past (ICL_Infected_curves InitialSize_log LogR n_regions n_obs_days ! c ! r)
                (exp (InitialSize_log ! c ! r)) (int day - int k) * SI ! (k - 1)) \<and>
         (\<forall>LogR'. shape3 LogR' 2 n_regions n_obs_days \<and>
                  (\<forall>j \<le> day. LogR' ! c ! r ! j = LogR ! c ! r ! j) \<longrightarrow>
             ICL_Infected_curves InitialSize_log LogR' n_regions n_obs_days ! c ! r ! day =
             ICL_Infected_curves InitialSize_log LogR n_regions n_obs_days ! c ! r ! day)"
proof -
  have pad: "conv_padding \<le> length SI"
    by (simp add: SI_length conv_padding_def)
  have "ICL_Infected_curves InitialSize_log LogR n_regions n_obs_days ! c ! r ! day =
           exp (LogR ! c ! r ! day) *
           (\<Sum>k = 1..length SI.
              ICL_past (ICL_Infected_curves InitialSize_log LogR n_regions n_obs_days ! c ! r)
                (exp (InitialSize_log ! c ! r)) (int day - int k) * SI ! (k - 1))"
    unfolding ICL_curve_row[OF assms(3,4)]
    using renewal_run_recursion[OF pad assms(5), of "map (map (map exp)) LogR ! c ! r"
        "exp (InitialSize_log ! c ! r)"]
    by (simp only: exp_LogR_nth[OF assms(1,3,4,5)])
  moreover have "ICL_Infected_curves InitialSize_log LogR' n_regions n_obs_days ! c ! r ! day =
             ICL_Infected_curves InitialSize_log LogR n_regions n_obs_days ! c ! r ! day"
    if "shape3 LogR' 2 n_regions n_obs_days" "\<forall>j \<le> day. LogR' ! c ! r ! j = LogR ! c ! r ! j"
    for LogR'
    using that by (intro ICL_curve_causal[OF assms(1) _ assms(3,4,5)]) simp_all
  ultimately show ?thesis by blast
qed

theorem ICL_renewal_recursion_witness:
  "shape3 [[[0, 0 :: real]], [[0, 0]]] 2 1 2 \<and> shape2 [[0 :: real], [0]] 2 1 \<and>
   ICL_Infected_curves [[0], [0]] [[[0, 0]], [[0, 0]]] 1 2 ! 0 ! 0 ! 0 = sum_list (take 7 SI)"
proof -
  have a: "shape3 [[[0, 0 :: real]], [[0, 0]]] 2 1 2"
    by (simp add: shape3_def shape2_def)
  have b: "shape2 [[0 :: real], [0]] 2 1"
    by (simp add: shape2_def)
  have "ICL_Infected_curves [[0], [0]] [[[0, 0]], [[0, 0]]] 1 2 ! 0 ! 0 ! 0 =
        exp ([[[0, 0 :: real]], [[0, 0]]] ! 0 ! 0 ! 0) *
        (\<Sum>k = 1..length SI.
           ICL_past (ICL_Infected_curves [[0], [0]] [[[0, 0]], [[0, 0]]] 1 2 ! 0 ! 0)
             (exp ([[0 :: real], [0]] ! 0 ! 0)) (int 0 - int k) * SI ! (k - 1))"
    using ICL_renewal_recursion[OF a b, of 0 0 0] by simp
  then have "ICL_Infected_curves [[0], [0]] [[[0, 0]], [[0, 0]]] 1 2 ! 0 ! 0 ! 0 =
             sum_list (take 7 SI)"
    unfolding seed_sum by simp
  then show ?thesis using a b by simp
qed

end
